theory Spec2Isabelle
  imports Main "HOL-Library.Multiset" "HOL-Library.Code_Target_Nat"
begin

section \<open>Data model of the page routes (src/routes/pages.ts)\<close>

text \<open>
  The types \<open>Festival\<close>, \<open>Region\<close>, \<open>SessionData\<close>, \<open>SpotifyArtist\<close>, \<open>SpotifyTrack\<close>,
  \<open>LineupDay\<close> and \<open>StatefulObject\<close> are ambient TypeScript declarations; the records
  below carry the properties that \<open>pages.ts\<close> reads and writes. A property that may be
  \<open>undefined\<close> or \<open>null\<close> is an \<open>option\<close>; a JavaScript number that may be \<open>NaN\<close> is an
  \<open>int option\<close> with \<open>None\<close> for \<open>NaN\<close>.
\<close>

record Festival =
  name :: string
  display_name :: string
  region :: string
  years :: "int list"

record Region =
  region_name :: string
  region_display_name :: string

record SessionData =
  festivalName :: string
  festivalDisplayName :: string
  festivalYear :: int
  trackType :: "string option"
  tracksPerArtist :: "int option"
  artistIdsStr :: "string option"
  selectedGenresStr :: "string option"
  selectedDaysStr :: "string option"
  trackIdsStr :: "string option"
  playlistName :: "string option"
  playlistUrl :: "string option"

record SpotifyArtist =
  artist_id :: string
  artist_name :: string
  combined_genres :: "string list"
  checkedStr :: string

record SpotifyTrack =
  track_id :: string
  track_name :: string

record LineupDay =
  number :: int
  day_display :: string

record 'a StatefulObject =
  state :: string
  obj :: 'a

record ArtistWithTracks =
  act :: SpotifyArtist
  tracks :: "SpotifyTrack list"

text \<open>The module \<open>constants\<close>: of it the routes use three tables.\<close>

record constants =
  supportedFestivals :: "Festival list"
  regions :: "Region list"
  mainGenres :: "string list"

text \<open>
  The module \<open>redis-helper\<close>: every function of it that the routes await, as a
  function of the arguments the routes pass (the Redis client apart).
\<close>

record redisHelper =
  getSessionData :: "string \<Rightarrow> SessionData option"
  getArtistsForFestival :: "string \<Rightarrow> int \<Rightarrow> SpotifyArtist list"
  getLineupDays :: "string \<Rightarrow> int \<Rightarrow> int list"
  getLineupDayMetadata :: "string \<Rightarrow> int \<Rightarrow> int \<Rightarrow> LineupDay"
  getLineupLastUpdatedDate :: "string \<Rightarrow> int \<Rightarrow> string"
  getNewestTracksForArtist :: "SpotifyArtist \<Rightarrow> int option \<Rightarrow> SpotifyTrack list"
  getTopTracksForArtist :: "SpotifyArtist \<Rightarrow> int option \<Rightarrow> SpotifyTrack list"
  getSetlistTracksForArtist :: "SpotifyArtist \<Rightarrow> int option \<Rightarrow> SpotifyTrack list"

text \<open>
  What a handler does besides answering, in the order it does it: the commands it
  sends to the Redis client, the lines it logs and the track fetches it awaits.
\<close>

datatype strategy = Newest | Top | Setlist

datatype event =
    HDel string "string list"
  | HMSet string SessionData
  | ConsoleError string
  | ConsoleWarn string
  | FetchTracks strategy SpotifyArtist "int option"

text \<open>
  A handler ends in \<open>res.status(n).send(msg)\<close>, in \<open>res.render(view, data)\<close>, or in an
  exception thrown inside the async handler.
\<close>

datatype js_error = TypeError

datatype 'd response =
    Send nat string
  | Render string 'd
  | Fault js_error

section \<open>JavaScript built-ins used by the routes\<close>

text \<open>\<open>s.split(",")\<close>: the pieces between commas; the empty string gives one empty piece.\<close>

fun split_comma :: "string \<Rightarrow> string list" where
  "split_comma [] = [[]]"
| "split_comma (c # cs) =
     (if c = CHR '','' then [] # split_comma cs
      else (case split_comma cs of
              [] \<Rightarrow> [[c]]
            | w # ws \<Rightarrow> (c # w) # ws))"

text \<open>\<open>xs.join(",")\<close>.\<close>

fun join_comma :: "string list \<Rightarrow> string" where
  "join_comma [] = []"
| "join_comma [x] = x"
| "join_comma (x # y # zs) = x @ '','' @ join_comma (y # zs)"

text \<open>
  \<open>n.toString()\<close> and template interpolation of an integral number: its decimal
  digits, as JavaScript prints an integral number below \<open>10^21\<close>.
\<close>

definition digit_char :: "nat \<Rightarrow> char" where
  "digit_char n = ''0123456789'' ! (n mod 10)"

fun nat_to_string :: "nat \<Rightarrow> string" where
  "nat_to_string n =
     (if n < 10 then [digit_char n]
      else nat_to_string (n div 10) @ [digit_char n])"

declare nat_to_string.simps [simp del]

definition number_toString :: "int \<Rightarrow> string" where
  "number_toString i =
     (if i < 0 then CHR ''-'' # nat_to_string (nat (- i)) else nat_to_string (nat i))"

text \<open>
  \<open>parseInt(s, 10)\<close>: leading white space is skipped, one sign is read, then the
  longest run of decimal digits; no digit gives \<open>NaN\<close>. The digits' value becomes a
  Number: itself below \<open>2^53\<close>, otherwise the nearest double, a tie going to the even
  one, and \<open>Infinity\<close> from \<open>2^1024\<close> on. \<open>None\<close> stands for \<open>NaN\<close> and for the
  infinities: none of them is among a festival's years.

  A \<open>char\<close> is a code unit below 256, so a string is one whose code units all are.
  The white space code units below 256 are tab, line feed, vertical tab, form feed,
  carriage return, space and the no-break space U+00A0.
\<close>

definition is_space :: "char \<Rightarrow> bool" where
  "is_space c = ((of_char c :: nat) \<in> {9, 10, 11, 12, 13, 32, 160})"

fun bit_length :: "nat \<Rightarrow> nat" where
  "bit_length n = (if n = 0 then 0 else Suc (bit_length (n div 2)))"

declare bit_length.simps [simp del]

definition to_double :: "nat \<Rightarrow> nat option" where
  "to_double n =
     (if n < 9007199254740992 then Some n
      else
        (let e = bit_length n - 53;
             q = n div 2 ^ e;
             r = n mod 2 ^ e;
             half = 2 ^ (e - 1);
             q' = (if half < r \<or> (r = half \<and> odd q) then q + 1 else q);
             v = q' * 2 ^ e
         in if 2 ^ 1024 \<le> v then None else Some v))"

definition is_digit :: "char \<Rightarrow> bool" where
  "is_digit c = (48 \<le> (of_char c :: nat) \<and> (of_char c :: nat) \<le> 57)"

definition digit_value :: "char \<Rightarrow> nat" where
  "digit_value c = (of_char c :: nat) - 48"

definition digits_value :: "string \<Rightarrow> nat" where
  "digits_value ds = foldl (\<lambda>acc c. acc * 10 + digit_value c) 0 ds"

definition parseInt :: "string \<Rightarrow> int option" where
  "parseInt s =
     (let t = dropWhile is_space s;
          (neg, u) = (case t of
                        c # r \<Rightarrow> if c = CHR ''-'' then (True, r)
                                 else if c = CHR ''+'' then (False, r)
                                 else (False, t)
                      | [] \<Rightarrow> (False, t));
          ds = takeWhile is_digit u
      in if ds = [] then None
         else (case to_double (digits_value ds) of
                 None \<Rightarrow> None
               | Some v \<Rightarrow> Some (if neg then - int v else int v)))"

text \<open>\<open>xs.filter(p)[0]\<close>: the first match, or \<open>undefined\<close>.\<close>

definition first_match :: "('a \<Rightarrow> bool) \<Rightarrow> 'a list \<Rightarrow> 'a option" where
  "first_match p xs = (case filter p xs of [] \<Rightarrow> None | x # _ \<Rightarrow> Some x)"

section \<open>GET /personalized-lineup and GET /generate-playlist-success\<close>

definition sessionKey :: "string \<Rightarrow> string" where
  "sessionKey sessionUid = ''sessionData:'' @ sessionUid"

record SuccessPage =
  sp_prod :: bool
  sp_titleOverride :: string
  sp_festival :: Festival
  sp_festivalYear :: int
  sp_playlistName :: "string option"
  sp_playlistUrl :: "string option"

text \<open>
  Lines 278-296. The catalog lookup is \<open>filter(...)[0]\<close>; reading \<open>display_name\<close> of
  \<open>undefined\<close> throws.
\<close>

definition generate_playlist_success ::
  "constants \<Rightarrow> redisHelper \<Rightarrow> bool \<Rightarrow> string \<Rightarrow> SuccessPage response \<times> event list" where
  "generate_playlist_success C H isProd sessionUid =
     (case getSessionData H sessionUid of
        None \<Rightarrow> (Send 403 ''This url only accessible after generating Spotify playlist.'', [])
      | Some sessionData \<Rightarrow>
          (case first_match
                  (\<lambda>x. name x = festivalName sessionData
                        \<and> festivalYear sessionData \<in> set (years x))
                  (supportedFestivals C) of
             None \<Rightarrow> (Fault TypeError, [])
           | Some festival \<Rightarrow>
               (Render ''generate-playlist-success''
                  \<lparr> sp_prod = isProd,
                    sp_titleOverride = display_name festival @ '' ''
                       @ number_toString (festivalYear sessionData) @ '' Playlist Success'',
                    sp_festival = festival,
                    sp_festivalYear = festivalYear sessionData,
                    sp_playlistName = playlistName sessionData,
                    sp_playlistUrl = playlistUrl sessionData \<rparr>, [])))"

record LineupPage =
  lp_prod :: bool
  lp_titleOverride :: string
  lp_festivalDisplayName :: string
  lp_playlistName :: string
  lp_acts :: "ArtistWithTracks list"
  lp_tracksPerArtist :: "int option"

text \<open>
  Lines 237-253: the fetch for one artist, with what it logs and awaits. The
  interpolated \<open>trackType ? trackType : "undefined"\<close> takes the second branch for a
  missing and for an empty string.
\<close>

definition fetch_tracks ::
  "redisHelper \<Rightarrow> SessionData \<Rightarrow> SpotifyArtist \<Rightarrow> SpotifyTrack list \<times> event list" where
  "fetch_tracks H sessionData artist =
     (if trackType sessionData = Some ''recent'' then
        (getNewestTracksForArtist H artist (tracksPerArtist sessionData),
         [FetchTracks Newest artist (tracksPerArtist sessionData)])
      else if trackType sessionData = Some ''top'' then
        (getTopTracksForArtist H artist (tracksPerArtist sessionData),
         [FetchTracks Top artist (tracksPerArtist sessionData)])
      else if trackType sessionData = Some ''setlist'' then
        (getSetlistTracksForArtist H artist (tracksPerArtist sessionData),
         [FetchTracks Setlist artist (tracksPerArtist sessionData)])
      else
        (getTopTracksForArtist H artist (tracksPerArtist sessionData),
         [ConsoleWarn (''Found track type of ''
             @ (case trackType sessionData of
                  None \<Rightarrow> ''undefined''
                | Some t \<Rightarrow> if t = [] then ''undefined'' else t)
             @ '' in session data, defaulting to top ttracks''),
          FetchTracks Top artist (tracksPerArtist sessionData)]))"

text \<open>
  Lines 234-261: the loop over \<open>filteredArtists\<close>, carrying \<open>artistsWithTracks\<close>,
  \<open>trackIds\<close> and the events so far.
\<close>

fun tracks_loop ::
  "redisHelper \<Rightarrow> SessionData \<Rightarrow> SpotifyArtist list
   \<Rightarrow> ArtistWithTracks list \<times> string list \<times> event list
   \<Rightarrow> ArtistWithTracks list \<times> string list \<times> event list" where
  "tracks_loop H sessionData [] acc = acc"
| "tracks_loop H sessionData (artist # rest) (artistsWithTracks, trackIds, evs) =
     (let (tracksForArtist, ev) = fetch_tracks H sessionData artist;
          artistWithTracks = \<lparr> act = artist, tracks = tracksForArtist \<rparr>
      in tracks_loop H sessionData rest
           (artistsWithTracks @ [artistWithTracks],
            (if tracksForArtist \<noteq> [] then trackIds @ map track_id tracksForArtist
             else trackIds),
            evs @ ev))"

text \<open>
  Lines 230-232. \<open>sessionData.artistIdsStr.split(",")\<close> throws when the property is
  missing.
\<close>

definition chosen_artists :: "SessionData \<Rightarrow> js_error + string list" where
  "chosen_artists sessionData =
     (case artistIdsStr sessionData of
        None \<Rightarrow> Inl TypeError
      | Some s \<Rightarrow> Inr (split_comma s))"

definition filter_artists :: "string list \<Rightarrow> SpotifyArtist list \<Rightarrow> SpotifyArtist list" where
  "filter_artists chosenArtistIds artists =
     (if length chosenArtistIds > 0
      then filter (\<lambda>x. artist_id x \<in> set chosenArtistIds) artists
      else [])"

text \<open>Lines 220-276.\<close>

definition personalized_lineup ::
  "redisHelper \<Rightarrow> bool \<Rightarrow> string \<Rightarrow> LineupPage response \<times> event list" where
  "personalized_lineup H isProd sessionUid =
     (case getSessionData H sessionUid of
        None \<Rightarrow>
          (Send 400
             ''This url only accessible after generating a lineup from the customize page.'',
           [])
      | Some sessionData \<Rightarrow>
          (let artists = getArtistsForFestival H (festivalName sessionData)
                           (festivalYear sessionData)
           in case chosen_artists sessionData of
                Inl e \<Rightarrow> (Fault e, [])
              | Inr chosenArtistIds \<Rightarrow>
                  (let filteredArtists = filter_artists chosenArtistIds artists;
                       (artistsWithTracks, trackIds, evs) =
                          tracks_loop H sessionData filteredArtists ([], [], [])
                   in (Render ''personalized-lineup''
                         \<lparr> lp_prod = isProd,
                           lp_titleOverride = ''Personalized Lineup - ''
                              @ festivalDisplayName sessionData @ '' ''
                              @ number_toString (festivalYear sessionData),
                           lp_festivalDisplayName = festivalDisplayName sessionData,
                           lp_playlistName = festivalDisplayName sessionData @ '' ''
                              @ number_toString (festivalYear sessionData)
                              @ '' - Lineup List'',
                           lp_acts = artistsWithTracks,
                           lp_tracksPerArtist = tracksPerArtist sessionData \<rparr>,
                       evs @ [HMSet (sessionKey sessionUid)
                                (sessionData\<lparr>trackIdsStr := Some (join_comma trackIds)\<rparr>)]))))"

section \<open>GET /customize\<close>

text \<open>
  A JavaScript \<open>Map\<close> keeps its keys in insertion order; \<open>set\<close> on a key that is
  present replaces the value where the key stands.
\<close>

type_synonym ('k, 'v) js_map = "('k \<times> 'v) list"

definition map_has :: "'k \<Rightarrow> ('k, 'v) js_map \<Rightarrow> bool" where
  "map_has k m = (k \<in> set (map fst m))"

fun map_set :: "'k \<Rightarrow> 'v \<Rightarrow> ('k, 'v) js_map \<Rightarrow> ('k, 'v) js_map" where
  "map_set k v [] = [(k, v)]"
| "map_set k v ((k', v') # m) =
     (if k' = k then (k, v) # m else (k', v') # map_set k v m)"

definition map_values :: "('k, 'v) js_map \<Rightarrow> 'v list" where
  "map_values m = map snd m"

text \<open>
  \<open>xs.sort(cmp)\<close>, stable: each element goes before the first element that the
  comparator does not put before it.
\<close>

fun insert_by :: "('a \<Rightarrow> 'a \<Rightarrow> int) \<Rightarrow> 'a \<Rightarrow> 'a list \<Rightarrow> 'a list" where
  "insert_by cmp x [] = [x]"
| "insert_by cmp x (y # ys) =
     (if cmp x y \<le> 0 then x # y # ys else y # insert_by cmp x ys)"

definition array_sort :: "('a \<Rightarrow> 'a \<Rightarrow> int) \<Rightarrow> 'a list \<Rightarrow> 'a list" where
  "array_sort cmp xs = foldr (insert_by cmp) xs []"

text \<open>
  \<open>xs.sort()\<close> without a comparator compares the elements' string conversions by code
  unit; every \<open>StatefulObject\<close> converts to the same string.
\<close>

fun code_unit_less :: "string \<Rightarrow> string \<Rightarrow> bool" where
  "code_unit_less [] [] = False"
| "code_unit_less [] (y # ys) = True"
| "code_unit_less (x # xs) [] = False"
| "code_unit_less (x # xs) (y # ys) =
     ((of_char x :: nat) < of_char y \<or> (x = y \<and> code_unit_less xs ys))"

definition default_compare :: "('a \<Rightarrow> string) \<Rightarrow> 'a \<Rightarrow> 'a \<Rightarrow> int" where
  "default_compare toStr x y =
     (if code_unit_less (toStr x) (toStr y) then - 1
      else if code_unit_less (toStr y) (toStr x) then 1 else 0)"

definition object_toString :: "'a StatefulObject \<Rightarrow> string" where
  "object_toString x = ''[object Object]''"

definition sort_objects :: "'a StatefulObject list \<Rightarrow> 'a StatefulObject list" where
  "sort_objects xs = array_sort (default_compare object_toString) xs"

text \<open>
  The test \<open>previouslySelected === null || previouslySelected.includes(x) ? "checked" : ""\<close>,
  written out four times between lines 155 and 193.
\<close>

definition checked_for :: "string list option \<Rightarrow> string \<Rightarrow> string" where
  "checked_for previouslySelected x =
     (case previouslySelected of
        None \<Rightarrow> ''checked''
      | Some l \<Rightarrow> if x \<in> set l then ''checked'' else [])"

text \<open>The local variables that the session branch (lines 59-141) sets; the last three are
  \<open>previouslySelectedArtists\<close>, \<open>previouslySelectedGenres\<close> and \<open>previouslySelectedDays\<close>.\<close>

record selections =
  sel_tracksPerArtist :: int
  sel_topTracksCheckedStr :: string
  sel_setlistTracksCheckedStr :: string
  sel_newTracksCheckedStr :: string
  sel_artists :: "string list option"
  sel_genres :: "string list option"
  sel_days :: "string list option"

definition stale_fields :: "string list" where
  "stale_fields =
     [''tracksPerArtist'', ''artistIdsStr'', ''trackIdsStr'', ''trackType'',
      ''playlistName'', ''selectedDaysStr'', ''selectedGenresStr'']"

definition newSessionData :: "Festival \<Rightarrow> int \<Rightarrow> SessionData" where
  "newSessionData festival queryYear =
     \<lparr> festivalName = name festival,
       festivalDisplayName = display_name festival,
       festivalYear = queryYear,
       trackType = None, tracksPerArtist = None, artistIdsStr = None,
       selectedGenresStr = None, selectedDaysStr = None, trackIdsStr = None,
       playlistName = None, playlistUrl = None \<rparr>"

definition session_matches :: "SessionData \<Rightarrow> Festival \<Rightarrow> int \<Rightarrow> bool" where
  "session_matches sessionData festival queryYear =
     (festivalName sessionData = name festival \<and> festivalYear sessionData = queryYear)"

text \<open>Lines 69-103: the selections are read back from the session.\<close>

definition restore_selections :: "SessionData \<Rightarrow> selections \<times> event list" where
  "restore_selections sessionData =
     (let tpa = (case tracksPerArtist sessionData of None \<Rightarrow> 3 | Some n \<Rightarrow> n);
          (top, setlist, new, ev) =
            (if trackType sessionData = Some ''top'' then (''checked'', [], [], [])
             else if trackType sessionData = Some ''setlist'' then ([], ''checked'', [], [])
             else if trackType sessionData = Some ''recent'' then ([], [], ''checked'', [])
             else (''checked'', [], [],
                   [ConsoleError
                      (''Resetting customize page to last known state and recieved unknown tracktype: ''
                       @ (case trackType sessionData of
                            None \<Rightarrow> ''null or undefined''
                          | Some t \<Rightarrow> if t = [] then ''null or undefined'' else t))]))
      in (\<lparr> sel_tracksPerArtist = tpa,
            sel_topTracksCheckedStr = top,
            sel_setlistTracksCheckedStr = setlist,
            sel_newTracksCheckedStr = new,
            sel_artists = map_option split_comma (artistIdsStr sessionData),
            sel_genres = map_option split_comma (selectedGenresStr sessionData),
            sel_days = map_option split_comma (selectedDaysStr sessionData) \<rparr>,
          ev))"

text \<open>
  Lines 105-140: the defaults, and the two commands sent to the Redis client (both are
  sent without waiting; an error of \<open>hdel\<close> is only logged).
\<close>

definition reset_session :: "string \<Rightarrow> Festival \<Rightarrow> int \<Rightarrow> selections \<times> event list" where
  "reset_session sessionUid festival queryYear =
     (\<lparr> sel_tracksPerArtist = 3,
        sel_topTracksCheckedStr = ''checked'',
        sel_setlistTracksCheckedStr = [],
        sel_newTracksCheckedStr = [],
        sel_artists = None,
        sel_genres = None,
        sel_days = None \<rparr>,
      [HDel (sessionKey sessionUid) stale_fields,
       HMSet (sessionKey sessionUid) (newSessionData festival queryYear)])"

definition session_branch ::
  "SessionData option \<Rightarrow> string \<Rightarrow> Festival \<Rightarrow> int \<Rightarrow> selections \<times> event list" where
  "session_branch sd sessionUid festival queryYear =
     (case sd of
        None \<Rightarrow> reset_session sessionUid festival queryYear
      | Some sessionData \<Rightarrow>
          if session_matches sessionData festival queryYear
          then restore_selections sessionData
          else reset_session sessionUid festival queryYear)"

text \<open>Lines 154-161: the loop that fills \<open>daysMap\<close>.\<close>

fun days_loop ::
  "string list option \<Rightarrow> LineupDay list
   \<Rightarrow> (string, LineupDay StatefulObject) js_map
   \<Rightarrow> (string, LineupDay StatefulObject) js_map" where
  "days_loop previouslySelectedDays [] daysMap = daysMap"
| "days_loop previouslySelectedDays (lineupDay # rest) daysMap =
     (let checkedStr = checked_for previouslySelectedDays (number_toString (number lineupDay))
      in days_loop previouslySelectedDays rest
           (map_set (number_toString (number lineupDay))
              \<lparr> state = checkedStr, obj = lineupDay \<rparr> daysMap))"

text \<open>Lines 168-185: one genre of one artist against the two genre maps.\<close>

type_synonym genre_maps =
  "(string, string StatefulObject) js_map \<times> (string, string StatefulObject) js_map"

definition genre_step ::
  "string list \<Rightarrow> string list option \<Rightarrow> string \<Rightarrow> genre_maps \<Rightarrow> genre_maps" where
  "genre_step mainGenresList previouslySelectedGenres genre maps =
     (case maps of (mainGenresMap, specificGenresMap) \<Rightarrow>
        if genre \<in> set mainGenresList then
          (if \<not> map_has genre mainGenresMap
           then (map_set genre
                   \<lparr> state = checked_for previouslySelectedGenres genre, obj = genre \<rparr>
                   mainGenresMap,
                 specificGenresMap)
           else (mainGenresMap, specificGenresMap))
        else if \<not> map_has genre specificGenresMap
          then (mainGenresMap,
                map_set genre
                  \<lparr> state = checked_for previouslySelectedGenres genre, obj = genre \<rparr>
                  specificGenresMap)
          else (mainGenresMap, specificGenresMap))"

fun genres_loop ::
  "string list \<Rightarrow> string list option \<Rightarrow> string list \<Rightarrow> genre_maps \<Rightarrow> genre_maps" where
  "genres_loop mainGenresList previouslySelectedGenres [] maps = maps"
| "genres_loop mainGenresList previouslySelectedGenres (genre # rest) maps =
     genres_loop mainGenresList previouslySelectedGenres rest
       (genre_step mainGenresList previouslySelectedGenres genre maps)"

text \<open>
  Lines 166-194: the loop over the artists. It writes \<open>checkedStr\<close> into each artist;
  the artists written to are returned with the maps.
\<close>

fun artists_loop ::
  "string list \<Rightarrow> string list option \<Rightarrow> string list option \<Rightarrow> SpotifyArtist list
   \<Rightarrow> genre_maps \<Rightarrow> SpotifyArtist list \<times> genre_maps" where
  "artists_loop mainGenresList previouslySelectedArtists previouslySelectedGenres [] maps =
     ([], maps)"
| "artists_loop mainGenresList previouslySelectedArtists previouslySelectedGenres
     (artist # rest) maps =
     (let maps' = genres_loop mainGenresList previouslySelectedGenres
                    (combined_genres artist) maps;
          artist' = artist\<lparr>checkedStr :=
                      checked_for previouslySelectedArtists (artist_id artist)\<rparr>;
          (rest', maps'') = artists_loop mainGenresList previouslySelectedArtists
                              previouslySelectedGenres rest maps'
      in (artist' # rest', maps''))"

record CustomizePage =
  cp_prod :: bool
  cp_titleOverride :: string
  cp_festival :: Festival
  cp_festivalYear :: int
  cp_lastUpdatedDate :: string
  cp_artists :: "SpotifyArtist list"
  cp_mainGenres :: "string StatefulObject list"
  cp_specificGenres :: "string StatefulObject list"
  cp_days :: "LineupDay StatefulObject list"
  cp_tracksPerArtist :: int
  cp_topTracksCheckedStr :: string
  cp_setlistTracksCheckedStr :: string
  cp_newTracksCheckedStr :: string

text \<open>Lines 143-217: what is rendered, from the selections.\<close>

definition customize_page ::
  "constants \<Rightarrow> redisHelper \<Rightarrow> bool \<Rightarrow> Festival \<Rightarrow> int \<Rightarrow> selections \<Rightarrow> CustomizePage" where
  "customize_page C H isProd festival queryYear sel =
     (let artists = getArtistsForFestival H (name festival) queryYear;
          dayNumbers = getLineupDays H (name festival) queryYear;
          daysWithMetadata =
            map (\<lambda>day. getLineupDayMetadata H (name festival) queryYear day) dayNumbers;
          daysMap = days_loop (sel_days sel) daysWithMetadata [];
          days = sort_objects (map_values daysMap);
          (artists', mainGenresMap, specificGenresMap) =
            artists_loop (mainGenres C) (sel_artists sel) (sel_genres sel) artists ([], []);
          mainGenres' = sort_objects (map_values mainGenresMap);
          specificGenres = sort_objects (map_values specificGenresMap);
          lastUpdatedDate = getLineupLastUpdatedDate H (name festival) queryYear
      in \<lparr> cp_prod = isProd,
           cp_titleOverride = ''Customize Playlist - '' @ display_name festival @ '' ''
              @ number_toString queryYear,
           cp_festival = festival,
           cp_festivalYear = queryYear,
           cp_lastUpdatedDate = lastUpdatedDate,
           cp_artists = artists',
           cp_mainGenres = mainGenres',
           cp_specificGenres = specificGenres,
           cp_days = days,
           cp_tracksPerArtist = sel_tracksPerArtist sel,
           cp_topTracksCheckedStr = sel_topTracksCheckedStr sel,
           cp_setlistTracksCheckedStr = sel_setlistTracksCheckedStr sel,
           cp_newTracksCheckedStr = sel_newTracksCheckedStr sel \<rparr>)"

text \<open>
  Lines 44-55: a query parameter that is missing or empty is falsy; the edition is the
  first festival of the catalog with the queried name and the parsed year among its
  years. \<open>includes(NaN)\<close> finds nothing in a list of years.
\<close>

definition find_edition :: "constants \<Rightarrow> string \<Rightarrow> int option \<Rightarrow> Festival option" where
  "find_edition C festivalParam queryYear =
     first_match
       (\<lambda>x. name x = festivalParam
             \<and> (case queryYear of None \<Rightarrow> False | Some y \<Rightarrow> y \<in> set (years x)))
       (supportedFestivals C)"

definition falsy :: "string option \<Rightarrow> bool" where
  "falsy q = (case q of None \<Rightarrow> True | Some s \<Rightarrow> s = [])"

definition customize ::
  "constants \<Rightarrow> redisHelper \<Rightarrow> bool \<Rightarrow> string \<Rightarrow> string option \<Rightarrow> string option
   \<Rightarrow> CustomizePage response \<times> event list" where
  "customize C H isProd sessionUid festivalParam yearParam =
     (if falsy festivalParam \<or> falsy yearParam
      then (Send 400 ''You need to choose a festival first.'', [])
      else
        (let queryYear = parseInt (the yearParam)
         in case find_edition C (the festivalParam) queryYear of
              None \<Rightarrow> (Send 400 ''Invalid query params'', [])
            | Some festival \<Rightarrow>
                if name festival = [] then (Send 400 ''Invalid query params'', [])
                else
                  (case queryYear of
                     None \<Rightarrow> (Send 400 ''Invalid query params'', [])
                   | Some y \<Rightarrow>
                       (let (sel, evs) =
                              session_branch (getSessionData H sessionUid) sessionUid festival y
                        in (Render ''customize-list''
                              (customize_page C H isProd festival y sel), evs)))))"

section \<open>GET /\<close>

text \<open>\<open>[...new Set(xs)]\<close>: the first occurrence of each element, in order.\<close>

fun set_spread :: "'a list \<Rightarrow> 'a list \<Rightarrow> 'a list" where
  "set_spread seen [] = seen"
| "set_spread seen (x # xs) =
     (if x \<in> set seen then set_spread seen xs else set_spread (seen @ [x]) xs)"

definition separator :: "Region \<Rightarrow> Festival" where
  "separator r =
     \<lparr> name = [], display_name = region_display_name r, region = region_name r, years = [] \<rparr>"

text \<open>
  Lines 35-36. \<open>localeCompare\<close> is the platform's collation; it is the parameter \<open>lc\<close>.
  \<open>a || b\<close> is \<open>b\<close> where \<open>a\<close> is zero.
\<close>

definition festival_compare :: "(string \<Rightarrow> string \<Rightarrow> int) \<Rightarrow> Festival \<Rightarrow> Festival \<Rightarrow> int" where
  "festival_compare lc x y =
     (if lc (region x) (region y) \<noteq> 0 then lc (region x) (region y)
      else lc (name x) (name y))"

record HomePage =
  hp_prod :: bool
  hp_supportedFestivals :: "Festival list"

text \<open>Lines 24-42.\<close>

definition sortedFestivals :: "(string \<Rightarrow> string \<Rightarrow> int) \<Rightarrow> constants \<Rightarrow> Festival list" where
  "sortedFestivals lc C =
     (let regionCodes = set_spread [] (map region (supportedFestivals C))
      in array_sort (festival_compare lc)
           (supportedFestivals C
            @ map separator (filter (\<lambda>r. region_name r \<in> set regionCodes) (regions C))))"

definition home ::
  "(string \<Rightarrow> string \<Rightarrow> int) \<Rightarrow> constants \<Rightarrow> bool \<Rightarrow> HomePage response \<times> event list" where
  "home lc C isProd =
     (Render ''home'' \<lparr> hp_prod = isProd, hp_supportedFestivals = sortedFestivals lc C \<rparr>, [])"

section \<open>The session hash in Redis\<close>

text \<open>
  The hash stored under a key, field by field. \<open>HDEL\<close> removes the named fields;
  \<open>HMSET\<close> with an object sets one field for each property the object has, a number
  as its decimal string.
\<close>

type_synonym store = "string \<Rightarrow> (string \<rightharpoonup> string)"

definition session_fields :: "SessionData \<Rightarrow> (string \<times> string) list" where
  "session_fields s =
     [(''festivalName'', festivalName s),
      (''festivalDisplayName'', festivalDisplayName s),
      (''festivalYear'', number_toString (festivalYear s))]
     @ (case trackType s of None \<Rightarrow> [] | Some v \<Rightarrow> [(''trackType'', v)])
     @ (case tracksPerArtist s of None \<Rightarrow> []
        | Some n \<Rightarrow> [(''tracksPerArtist'', number_toString n)])
     @ (case artistIdsStr s of None \<Rightarrow> [] | Some v \<Rightarrow> [(''artistIdsStr'', v)])
     @ (case selectedGenresStr s of None \<Rightarrow> [] | Some v \<Rightarrow> [(''selectedGenresStr'', v)])
     @ (case selectedDaysStr s of None \<Rightarrow> [] | Some v \<Rightarrow> [(''selectedDaysStr'', v)])
     @ (case trackIdsStr s of None \<Rightarrow> [] | Some v \<Rightarrow> [(''trackIdsStr'', v)])
     @ (case playlistName s of None \<Rightarrow> [] | Some v \<Rightarrow> [(''playlistName'', v)])
     @ (case playlistUrl s of None \<Rightarrow> [] | Some v \<Rightarrow> [(''playlistUrl'', v)])"

fun exec_event :: "event \<Rightarrow> store \<Rightarrow> store" where
  "exec_event (HDel k fs) st = st(k := (\<lambda>f. if f \<in> set fs then None else st k f))"
| "exec_event (HMSet k s) st = st(k := st k ++ map_of (session_fields s))"
| "exec_event (ConsoleError m) st = st"
| "exec_event (ConsoleWarn m) st = st"
| "exec_event (FetchTracks kind artist n) st = st"

definition exec_events :: "event list \<Rightarrow> store \<Rightarrow> store" where
  "exec_events evs st = fold exec_event evs st"

definition is_mutation :: "event \<Rightarrow> bool" where
  "is_mutation e = (case e of HDel k fs \<Rightarrow> True | HMSet k s \<Rightarrow> True | _ \<Rightarrow> False)"

section \<open>A small catalog and helper, for concrete runs\<close>

definition coachella :: Festival where
  "coachella = \<lparr> name = ''Coachella'', display_name = ''Coachella Valley'',
                 region = ''us'', years = [2023, 2024] \<rparr>"

definition glastonbury :: Festival where
  "glastonbury = \<lparr> name = ''Glastonbury'', display_name = ''Glastonbury Festival'',
                   region = ''eu'', years = [2024] \<rparr>"

definition demo_constants :: constants where
  "demo_constants =
     \<lparr> supportedFestivals = [coachella, glastonbury],
       regions = [\<lparr> region_name = ''eu'', region_display_name = ''Europe'' \<rparr>,
                  \<lparr> region_name = ''us'', region_display_name = ''United States'' \<rparr>,
                  \<lparr> region_name = ''au'', region_display_name = ''Australia'' \<rparr>],
       mainGenres = [''rock'', ''pop''] \<rparr>"

definition artist1 :: SpotifyArtist where
  "artist1 = \<lparr> artist_id = ''a1'', artist_name = ''First'',
               combined_genres = [''rock'', ''indie''], checkedStr = [] \<rparr>"

definition artist2 :: SpotifyArtist where
  "artist2 = \<lparr> artist_id = ''a2'', artist_name = ''Second'',
               combined_genres = [''indie'', ''pop'', ''rock''], checkedStr = [] \<rparr>"

definition demo_track :: "string \<Rightarrow> SpotifyArtist \<Rightarrow> SpotifyTrack" where
  "demo_track kind a = \<lparr> track_id = artist_id a @ kind, track_name = kind \<rparr>"

definition demo_helper :: "SessionData option \<Rightarrow> redisHelper" where
  "demo_helper sd =
     \<lparr> getSessionData = (\<lambda>uid. sd),
       getArtistsForFestival = (\<lambda>n y. [artist1, artist2]),
       getLineupDays = (\<lambda>n y. [1, 2]),
       getLineupDayMetadata = (\<lambda>n y d. \<lparr> number = d, day_display = ''day'' \<rparr>),
       getLineupLastUpdatedDate = (\<lambda>n y. ''2024-01-01''),
       getNewestTracksForArtist = (\<lambda>a n. [demo_track ''n1'' a]),
       getTopTracksForArtist = (\<lambda>a n. [demo_track ''t1'' a, demo_track ''t2'' a]),
       getSetlistTracksForArtist = (\<lambda>a n. []) \<rparr>"

definition demo_session :: SessionData where
  "demo_session =
     \<lparr> festivalName = ''Coachella'', festivalDisplayName = ''Coachella Valley'',
       festivalYear = 2024, trackType = Some ''top'', tracksPerArtist = Some 2,
       artistIdsStr = Some ''a2,a1'', selectedGenresStr = Some ''rock'',
       selectedDaysStr = Some ''2'', trackIdsStr = None,
       playlistName = None, playlistUrl = None \<rparr>"

text \<open>Comparison of strings by code unit: one collation.\<close>

definition demo_lc :: "string \<Rightarrow> string \<Rightarrow> int" where
  "demo_lc a b = (if code_unit_less a b then - 1 else if code_unit_less b a then 1 else 0)"

section \<open>The rules as the specification words them\<close>

text \<open>
  The track resolver's rule: \<open>"recent"\<close> is the newest tracks, \<open>"top"\<close> the top tracks,
  \<open>"setlist"\<close> the setlist tracks; any other track type, a missing or empty one
  included, falls back to the top tracks.
\<close>

definition recognized :: "string option \<Rightarrow> bool" where
  "recognized t = (t = Some ''recent'' \<or> t = Some ''top'' \<or> t = Some ''setlist'')"

definition spec_strategy :: "string option \<Rightarrow> strategy" where
  "spec_strategy t =
     (if t = Some ''recent'' then Newest
      else if t = Some ''top'' then Top
      else if t = Some ''setlist'' then Setlist
      else Top)"

definition run_strategy ::
  "redisHelper \<Rightarrow> strategy \<Rightarrow> SpotifyArtist \<Rightarrow> int option \<Rightarrow> SpotifyTrack list" where
  "run_strategy H k a n =
     (case k of
        Newest \<Rightarrow> getNewestTracksForArtist H a n
      | Top \<Rightarrow> getTopTracksForArtist H a n
      | Setlist \<Rightarrow> getSetlistTracksForArtist H a n)"

text \<open>
  The selection rule: the previously selected list of a dimension is absent when the
  session (of this festival and year) does not hold it, and otherwise the pieces of
  the stored string; with an absent list every item is checked, with a present list
  an item is checked if its identifier is in the list and unchecked if not.
\<close>

definition spec_previous ::
  "SessionData option \<Rightarrow> Festival \<Rightarrow> int \<Rightarrow> (SessionData \<Rightarrow> string option)
   \<Rightarrow> string list option" where
  "spec_previous sd festival y field =
     (case sd of
        None \<Rightarrow> None
      | Some s \<Rightarrow> if session_matches s festival y
                  then map_option split_comma (field s) else None)"

definition follows_rule ::
  "string list option \<Rightarrow> ('i \<Rightarrow> string) \<Rightarrow> ('i \<Rightarrow> string) \<Rightarrow> 'i list \<Rightarrow> bool" where
  "follows_rule previous ident st items =
     (case previous of
        None \<Rightarrow> list_all (\<lambda>i. st i = ''checked'') items
      | Some l \<Rightarrow>
          list_all (\<lambda>i. if ident i \<in> set l then st i = ''checked'' else st i = []) items)"

definition all_genres :: "SpotifyArtist list \<Rightarrow> string list" where
  "all_genres artists = concat (map combined_genres artists)"

text \<open>
  What the loops keep true of the maps: a genre's entry is the one made from the
  genre itself, main genres and only they are in the first map, and no key is twice
  in a map; a day's entry stands under its number's string.
\<close>

definition entry :: "string list option \<Rightarrow> string \<Rightarrow> string StatefulObject" where
  "entry pg g = \<lparr> state = checked_for pg g, obj = g \<rparr>"

definition genre_inv :: "string list \<Rightarrow> string list option \<Rightarrow> genre_maps \<Rightarrow> bool" where
  "genre_inv mgl pg maps =
     (case maps of (mm, sm) \<Rightarrow>
        distinct (map fst mm) \<and> distinct (map fst sm)
        \<and> (\<forall>(k, v) \<in> set mm. k \<in> set mgl \<and> v = entry pg k)
        \<and> (\<forall>(k, v) \<in> set sm. k \<notin> set mgl \<and> v = entry pg k))"

definition day_inv ::
  "string list option \<Rightarrow> (string, LineupDay StatefulObject) js_map \<Rightarrow> bool" where
  "day_inv pd m =
     (\<forall>(k, v) \<in> set m. k = number_toString (number (obj v)) \<and> state v = checked_for pd k)"

text \<open>
  What is taken of \<open>localeCompare\<close>: it is a consistent comparator (the sign of
  \<open>lc b a\<close> is the opposite of the sign of \<open>lc a b\<close>, and "not after" is transitive).
  The dropdown's order: region first, then festival name.
\<close>

definition consistent_compare :: "('a \<Rightarrow> 'a \<Rightarrow> int) \<Rightarrow> bool" where
  "consistent_compare cmp =
     ((\<forall>a b. (cmp a b < 0) = (cmp b a > 0))
      \<and> (\<forall>a b c. cmp a b \<le> 0 \<longrightarrow> cmp b c \<le> 0 \<longrightarrow> cmp a c \<le> 0))"

definition dropdown_order :: "(string \<Rightarrow> string \<Rightarrow> int) \<Rightarrow> Festival \<Rightarrow> Festival \<Rightarrow> bool" where
  "dropdown_order lc x y =
     (lc (region x) (region y) < 0
      \<or> (lc (region x) (region y) = 0 \<and> lc (name x) (name y) \<le> 0))"

section \<open>Facts about the built-ins\<close>

lemmas demo_defs = demo_helper_def demo_constants_def coachella_def glastonbury_def
  demo_session_def artist1_def artist2_def demo_track_def

lemma first_match_Some: "first_match p xs = Some x \<Longrightarrow> x \<in> set xs \<and> p x"
proof -
  assume "first_match p xs = Some x"
  then obtain r where "filter p xs = x # r"
    by (auto simp: first_match_def split: list.splits)
  then have "x \<in> set (filter p xs)" by simp
  then show ?thesis by simp
qed

lemma first_match_None: "first_match p xs = None \<longleftrightarrow> (\<forall>x \<in> set xs. \<not> p x)"
proof (cases "first_match p xs")
  case None
  then have "filter p xs = []"
    by (auto simp: first_match_def split: list.splits)
  with None show ?thesis by (simp add: filter_empty_conv)
next
  case (Some x)
  from first_match_Some [OF Some] Some show ?thesis by auto
qed

section \<open>Pages that need a session\<close>

text \<open>
  Claim C9. When the session load returns nothing, \<open>/personalized-lineup\<close> answers 400
  with the message "This url only accessible after generating a lineup from the
  customize page." and \<open>/generate-playlist-success\<close> answers 403 with a short message;
  neither renders a page, and neither sends anything to the store.
\<close>

theorem missing_session_is_refused:
  assumes "getSessionData H sessionUid = None"
  shows "personalized_lineup H isProd sessionUid =
           (Send 400
              ''This url only accessible after generating a lineup from the customize page.'',
            [])
       \<and> generate_playlist_success C H isProd sessionUid =
           (Send 403 ''This url only accessible after generating Spotify playlist.'', [])"
  using assms by (simp add: personalized_lineup_def generate_playlist_success_def)

theorem missing_session_is_refused_witness:
  "getSessionData (demo_helper None) ''u'' = None
   \<and> personalized_lineup (demo_helper None) True ''u'' =
        (Send 400
           ''This url only accessible after generating a lineup from the customize page.'',
         [])
   \<and> generate_playlist_success demo_constants (demo_helper None) True ''u'' =
        (Send 403 ''This url only accessible after generating Spotify playlist.'', [])"
proof -
  have h: "getSessionData (demo_helper None) ''u'' = None"
    by (simp add: demo_helper_def)
  from missing_session_is_refused [OF h, of True demo_constants] h show ?thesis
    by blast
qed

text \<open>
  Claim C10. With a session, the success page is rendered only when the session's
  festival name and year are an edition of the catalog, and then with that edition;
  when no festival of the catalog has that name and year, the lookup is \<open>undefined\<close>
  and the handler throws instead of answering with a status.
\<close>

theorem success_page_faults_without_edition:
  assumes "getSessionData H sessionUid = Some sd"
  shows "((\<forall>x \<in> set (supportedFestivals C).
             \<not> (name x = festivalName sd \<and> festivalYear sd \<in> set (years x)))
          \<longrightarrow> generate_playlist_success C H isProd sessionUid = (Fault TypeError, []))
       \<and> (\<forall>v d evs. generate_playlist_success C H isProd sessionUid = (Render v d, evs)
            \<longrightarrow> (\<exists>x \<in> set (supportedFestivals C).
                   name x = festivalName sd \<and> festivalYear sd \<in> set (years x)
                   \<and> sp_festival d = x))"
proof (cases "first_match (\<lambda>x. name x = festivalName sd \<and> festivalYear sd \<in> set (years x))
                (supportedFestivals C)")
  case None
  then show ?thesis
    using assms by (simp add: generate_playlist_success_def)
next
  case (Some f)
  from first_match_Some [OF Some] Some show ?thesis
    using assms by (auto simp: generate_playlist_success_def)
qed

theorem success_page_faults_without_edition_witness:
  "generate_playlist_success demo_constants
      (demo_helper (Some (demo_session\<lparr>festivalYear := 1999\<rparr>))) False ''u''
     = (Fault TypeError, [])
   \<and> (\<exists>x \<in> set (supportedFestivals demo_constants).
         name x = festivalName demo_session \<and> festivalYear demo_session \<in> set (years x))"
proof -
  let ?sd = "demo_session\<lparr>festivalYear := 1999\<rparr>"
  have h: "getSessionData (demo_helper (Some ?sd)) ''u'' = Some ?sd"
    by (simp add: demo_helper_def)
  have n: "\<forall>x \<in> set (supportedFestivals demo_constants).
             \<not> (name x = festivalName ?sd \<and> festivalYear ?sd \<in> set (years x))"
    by (simp add: demo_defs)
  have h2: "getSessionData (demo_helper (Some demo_session)) ''u'' = Some demo_session"
    by (simp add: demo_helper_def)
  have r: "\<exists>v d evs. generate_playlist_success demo_constants
                       (demo_helper (Some demo_session)) False ''u'' = (Render v d, evs)"
    by (simp add: generate_playlist_success_def first_match_def demo_defs)
  from success_page_faults_without_edition [OF h, of demo_constants False] n
       success_page_faults_without_edition [OF h2, of demo_constants False] r
  show ?thesis by blast
qed

section \<open>The track resolver\<close>

lemma tracks_loop_eq:
  "tracks_loop H sd as (acts, ids, evs) =
     (acts @ map (\<lambda>a. \<lparr> act = a, tracks = fst (fetch_tracks H sd a) \<rparr>) as,
      ids @ concat (map (\<lambda>a. map track_id (fst (fetch_tracks H sd a))) as),
      evs @ concat (map (\<lambda>a. snd (fetch_tracks H sd a)) as))"
  by (induction as arbitrary: acts ids evs) (simp_all add: Let_def split: prod.splits)

lemma fetch_tracks_fst:
  "fst (fetch_tracks H sd a) = run_strategy H (spec_strategy (trackType sd)) a (tracksPerArtist sd)"
  by (simp add: fetch_tracks_def run_strategy_def spec_strategy_def)

lemma fetch_tracks_snd:
  "snd (fetch_tracks H sd a) =
     (if recognized (trackType sd) then []
      else [ConsoleWarn (''Found track type of ''
              @ (case trackType sd of None \<Rightarrow> ''undefined''
                 | Some t \<Rightarrow> if t = [] then ''undefined'' else t)
              @ '' in session data, defaulting to top ttracks'')])
     @ [FetchTracks (spec_strategy (trackType sd)) a (tracksPerArtist sd)]"
  by (simp add: fetch_tracks_def recognized_def spec_strategy_def)

lemma personalized_lineup_eq:
  assumes "getSessionData H uid = Some sd" and "artistIdsStr sd = Some s"
  shows "personalized_lineup H isProd uid =
     (let F = filter_artists (split_comma s)
                (getArtistsForFestival H (festivalName sd) (festivalYear sd))
      in (Render ''personalized-lineup''
            \<lparr> lp_prod = isProd,
              lp_titleOverride = ''Personalized Lineup - '' @ festivalDisplayName sd @ '' ''
                 @ number_toString (festivalYear sd),
              lp_festivalDisplayName = festivalDisplayName sd,
              lp_playlistName = festivalDisplayName sd @ '' ''
                 @ number_toString (festivalYear sd) @ '' - Lineup List'',
              lp_acts = map (\<lambda>a. \<lparr> act = a, tracks = fst (fetch_tracks H sd a) \<rparr>) F,
              lp_tracksPerArtist = tracksPerArtist sd \<rparr>,
          concat (map (\<lambda>a. snd (fetch_tracks H sd a)) F)
          @ [HMSet (sessionKey uid)
               (sd\<lparr>trackIdsStr := Some (join_comma
                  (concat (map (\<lambda>a. map track_id (fst (fetch_tracks H sd a))) F)))\<rparr>)]))"
  using assms
  by (simp add: personalized_lineup_def chosen_artists_def tracks_loop_eq Let_def)

lemma exec_no_mutation: "\<forall>e \<in> set evs. \<not> is_mutation e \<Longrightarrow> fold exec_event evs st = st"
proof (induction evs arbitrary: st)
  case Nil
  then show ?case by simp
next
  case (Cons e evs)
  then have "exec_event e st = st"
    by (cases e) (simp_all add: is_mutation_def)
  with Cons show ?case by simp
qed

lemma fetch_events_no_mutation: "\<forall>e \<in> set (snd (fetch_tracks H sd a)). \<not> is_mutation e"
  by (simp add: fetch_tracks_def is_mutation_def)

lemma session_fields_trackIdsStr: "map_of (session_fields s) ''trackIdsStr'' = trackIdsStr s"
  by (simp add: session_fields_def split: option.splits)

text \<open>
  Claim C2. In the \<open>/personalized-lineup\<close> handler, with a session whose \<open>artistIdsStr\<close>
  is present, every filtered artist gets, in order, one fetch by the strategy of the
  session's track type: \<open>"recent"\<close> the newest tracks, \<open>"top"\<close> the top tracks,
  \<open>"setlist"\<close> the setlist tracks. For any other track type, missing and empty
  included, a warning is logged before each artist's fetch and the top tracks are
  fetched. The page is rendered in every case, with each artist's fetched tracks.
\<close>

theorem track_type_selects_strategy:
  assumes "getSessionData H uid = Some sd" and "artistIdsStr sd = Some s"
  shows "\<exists>d m w. personalized_lineup H isProd uid =
           (Render ''personalized-lineup'' d,
            concat (map (\<lambda>a. (if recognized (trackType sd) then [] else [ConsoleWarn w])
                              @ [FetchTracks (spec_strategy (trackType sd)) a
                                   (tracksPerArtist sd)])
                      (filter_artists (split_comma s)
                         (getArtistsForFestival H (festivalName sd) (festivalYear sd))))
            @ [m])
         \<and> is_mutation m
         \<and> lp_acts d =
             map (\<lambda>a. \<lparr> act = a,
                         tracks = run_strategy H (spec_strategy (trackType sd)) a
                                    (tracksPerArtist sd) \<rparr>)
               (filter_artists (split_comma s)
                  (getArtistsForFestival H (festivalName sd) (festivalYear sd)))"
  unfolding personalized_lineup_eq [OF assms] Let_def fetch_tracks_fst fetch_tracks_snd
  by (auto simp: is_mutation_def)

theorem track_type_selects_strategy_witness:
  "\<exists>d m w. personalized_lineup (demo_helper (Some (demo_session\<lparr>trackType := Some ''bogus''\<rparr>)))
              False ''u'' =
     (Render ''personalized-lineup'' d,
      [ConsoleWarn w, FetchTracks Top artist1 (Some 2),
       ConsoleWarn w, FetchTracks Top artist2 (Some 2), m])
     \<and> map tracks (lp_acts d) =
         [[demo_track ''t1'' artist1, demo_track ''t2'' artist1],
          [demo_track ''t1'' artist2, demo_track ''t2'' artist2]]"
proof -
  let ?sd = "demo_session\<lparr>trackType := Some ''bogus''\<rparr>"
  have h1: "getSessionData (demo_helper (Some ?sd)) ''u'' = Some ?sd"
    by (simp add: demo_helper_def)
  have h2: "artistIdsStr ?sd = Some ''a2,a1''"
    by (simp add: demo_session_def)
  have F: "filter_artists (split_comma ''a2,a1'')
             (getArtistsForFestival (demo_helper (Some ?sd)) (festivalName ?sd) (festivalYear ?sd))
           = [artist1, artist2]"
    by (simp add: filter_artists_def demo_helper_def artist1_def artist2_def)
  have k: "\<not> recognized (trackType ?sd)" "spec_strategy (trackType ?sd) = Top"
    "tracksPerArtist ?sd = Some 2"
    by (simp_all add: recognized_def spec_strategy_def demo_session_def)
  from track_type_selects_strategy [OF h1 h2, of False] obtain d m w where
    e: "personalized_lineup (demo_helper (Some ?sd)) False ''u'' =
          (Render ''personalized-lineup'' d,
           concat (map (\<lambda>a. (if recognized (trackType ?sd) then [] else [ConsoleWarn w])
                             @ [FetchTracks (spec_strategy (trackType ?sd)) a
                                  (tracksPerArtist ?sd)])
                     [artist1, artist2])
           @ [m])"
    and a: "lp_acts d =
              map (\<lambda>a. \<lparr> act = a,
                          tracks = run_strategy (demo_helper (Some ?sd))
                                     (spec_strategy (trackType ?sd)) a (tracksPerArtist ?sd) \<rparr>)
                [artist1, artist2]"
    unfolding F by blast
  from e have "personalized_lineup (demo_helper (Some ?sd)) False ''u'' =
     (Render ''personalized-lineup'' d,
      [ConsoleWarn w, FetchTracks Top artist1 (Some 2),
       ConsoleWarn w, FetchTracks Top artist2 (Some 2), m])"
    unfolding k by (simp add: recognized_def)
  moreover from a have "map tracks (lp_acts d) =
         [[demo_track ''t1'' artist1, demo_track ''t2'' artist1],
          [demo_track ''t1'' artist2, demo_track ''t2'' artist2]]"
    unfolding k by (simp add: run_strategy_def demo_helper_def)
  ultimately show ?thesis by auto
qed

text \<open>
  Claim C3. After the tracks are resolved, the handler's only command to the store is
  an \<open>HMSET\<close> of the session with \<open>trackIdsStr\<close> set to the comma-join of the ids of
  all fetched tracks: artist by artist in the order of the filtered artist list, and
  for each artist in the order of its fetched track list. The stored field
  \<open>trackIdsStr\<close> is that string afterwards.
\<close>

theorem trackIdsStr_is_join_of_fetched_ids:
  assumes "getSessionData H uid = Some sd" and "artistIdsStr sd = Some s"
  shows "\<exists>d evs.
           personalized_lineup H isProd uid =
             (Render ''personalized-lineup'' d,
              evs @ [HMSet (sessionKey uid)
                       (sd\<lparr>trackIdsStr :=
                            Some (join_comma (concat (map (\<lambda>t. map track_id (tracks t))
                                                        (lp_acts d))))\<rparr>)])
         \<and> (\<forall>e \<in> set evs. \<not> is_mutation e)
         \<and> lp_acts d =
             map (\<lambda>a. \<lparr> act = a, tracks = fst (fetch_tracks H sd a) \<rparr>)
               (filter_artists (split_comma s)
                  (getArtistsForFestival H (festivalName sd) (festivalYear sd)))
         \<and> (\<forall>st. exec_events (snd (personalized_lineup H isProd uid)) st
                    (sessionKey uid) ''trackIdsStr''
                  = Some (join_comma (concat (map (\<lambda>t. map track_id (tracks t))
                                                (lp_acts d)))))"
proof -
  let ?F = "filter_artists (split_comma s)
              (getArtistsForFestival H (festivalName sd) (festivalYear sd))"
  let ?evs = "concat (map (\<lambda>a. snd (fetch_tracks H sd a)) ?F)"
  have nm: "\<forall>e \<in> set ?evs. \<not> is_mutation e"
    using fetch_events_no_mutation by auto
  have ids: "concat (map (\<lambda>t. map track_id (tracks t))
               (map (\<lambda>a. \<lparr> act = a, tracks = fst (fetch_tracks H sd a) \<rparr>) ?F))
             = concat (map (\<lambda>a. map track_id (fst (fetch_tracks H sd a))) ?F)"
    by (simp add: comp_def)
  have "\<exists>d. personalized_lineup H isProd uid =
              (Render ''personalized-lineup'' d,
               ?evs @ [HMSet (sessionKey uid)
                        (sd\<lparr>trackIdsStr := Some (join_comma
                           (concat (map (\<lambda>a. map track_id (fst (fetch_tracks H sd a))) ?F)))\<rparr>)])
            \<and> lp_acts d = map (\<lambda>a. \<lparr> act = a, tracks = fst (fetch_tracks H sd a) \<rparr>) ?F"
    by (simp add: personalized_lineup_eq [OF assms] Let_def)
  then obtain d where
    run: "personalized_lineup H isProd uid =
              (Render ''personalized-lineup'' d,
               ?evs @ [HMSet (sessionKey uid)
                        (sd\<lparr>trackIdsStr := Some (join_comma
                           (concat (map (\<lambda>a. map track_id (fst (fetch_tracks H sd a))) ?F)))\<rparr>)])"
    and acts: "lp_acts d = map (\<lambda>a. \<lparr> act = a, tracks = fst (fetch_tracks H sd a) \<rparr>) ?F"
    by blast
  have ids': "concat (map (\<lambda>t. map track_id (tracks t)) (lp_acts d))
             = concat (map (\<lambda>a. map track_id (fst (fetch_tracks H sd a))) ?F)"
    unfolding acts by (rule ids)
  have stored: "\<forall>st. exec_events (snd (personalized_lineup H isProd uid)) st
                    (sessionKey uid) ''trackIdsStr''
                  = Some (join_comma (concat (map (\<lambda>t. map track_id (tracks t))
                                                (lp_acts d))))"
    unfolding run ids'
    by (simp add: exec_events_def exec_no_mutation [OF nm] session_fields_trackIdsStr)
  have run': "personalized_lineup H isProd uid =
              (Render ''personalized-lineup'' d,
               ?evs @ [HMSet (sessionKey uid)
                        (sd\<lparr>trackIdsStr := Some (join_comma
                           (concat (map (\<lambda>t. map track_id (tracks t)) (lp_acts d))))\<rparr>)])"
    unfolding ids' by (rule run)
  show ?thesis
    by (rule exI [of _ d], rule exI [of _ ?evs]) (intro conjI run' nm acts stored)
qed

theorem trackIdsStr_is_join_of_fetched_ids_witness:
  "\<exists>d evs. personalized_lineup (demo_helper (Some demo_session)) False ''u'' =
      (Render ''personalized-lineup'' d,
       evs @ [HMSet ''sessionData:u''
                (demo_session\<lparr>trackIdsStr := Some ''a1t1,a1t2,a2t1,a2t2''\<rparr>)])"
proof -
  let ?H = "demo_helper (Some demo_session)"
  have h1: "getSessionData ?H ''u'' = Some demo_session"
    by (simp add: demo_helper_def)
  have h2: "artistIdsStr demo_session = Some ''a2,a1''"
    by (simp add: demo_session_def)
  have F: "filter_artists (split_comma ''a2,a1'')
             (getArtistsForFestival ?H (festivalName demo_session) (festivalYear demo_session))
           = [artist1, artist2]"
    by (simp add: filter_artists_def demo_helper_def artist1_def artist2_def)
  from trackIdsStr_is_join_of_fetched_ids [OF h1 h2, of False] obtain d evs where
    run: "personalized_lineup ?H False ''u'' =
             (Render ''personalized-lineup'' d,
              evs @ [HMSet (sessionKey ''u'')
                       (demo_session\<lparr>trackIdsStr :=
                            Some (join_comma (concat (map (\<lambda>t. map track_id (tracks t))
                                                        (lp_acts d))))\<rparr>)])"
    and acts: "lp_acts d =
             map (\<lambda>a. \<lparr> act = a, tracks = fst (fetch_tracks ?H demo_session a) \<rparr>)
               [artist1, artist2]"
    unfolding F by blast
  have "join_comma (concat (map (\<lambda>t. map track_id (tracks t)) (lp_acts d)))
          = ''a1t1,a1t2,a2t1,a2t2''"
    unfolding acts
    by (simp add: fetch_tracks_def demo_defs)
  with run show ?thesis
    by (auto simp: sessionKey_def)
qed

text \<open>
  Claim C5 at two concrete sessions. With \<open>artistIdsStr\<close> absent (the session as
  \<open>/customize\<close> has just written it), \<open>/personalized-lineup\<close> throws at the \<open>split\<close>:
  there is no chosen list, no render and no write of \<open>trackIdsStr\<close>. With \<open>artistIdsStr\<close>
  the empty string, the chosen list is the one-element list of the empty string, not
  the empty list.
\<close>

theorem lineup_faults_without_artistIdsStr:
  "personalized_lineup (demo_helper (Some (newSessionData coachella 2024))) False ''u''
     = (Fault TypeError, [])
   \<and> chosen_artists (demo_session\<lparr>artistIdsStr := Some []\<rparr>) = Inr [[]]"
  by (simp add: personalized_lineup_def chosen_artists_def newSessionData_def demo_helper_def)

section \<open>The customize page: validation and session reset\<close>

lemma customize_page_festival:
  "cp_festival (customize_page C H isProd festival y sel) = festival"
  "cp_festivalYear (customize_page C H isProd festival y sel) = y"
  by (simp_all add: customize_page_def Let_def split: prod.splits)

lemma customize_Render:
  assumes "customize C H isProd uid fp yp = (Render v d, evs)"
  shows "\<exists>fs ys festival y sel.
           fp = Some fs \<and> yp = Some ys \<and> fs \<noteq> [] \<and> ys \<noteq> [] \<and> parseInt ys = Some y
         \<and> find_edition C fs (Some y) = Some festival
         \<and> session_branch (getSessionData H uid) uid festival y = (sel, evs)
         \<and> v = ''customize-list''
         \<and> d = customize_page C H isProd festival y sel"
  using assms
  by (auto simp: customize_def falsy_def Let_def
      split: if_splits option.splits prod.splits)

lemma find_edition_Some:
  "find_edition C fs q = Some festival \<Longrightarrow>
     festival \<in> set (supportedFestivals C) \<and> name festival = fs
     \<and> (\<exists>y. q = Some y \<and> y \<in> set (years festival))"
  unfolding find_edition_def
  by (drule first_match_Some) (auto split: option.splits)

lemma find_edition_None:
  "find_edition C fs q = None \<longleftrightarrow>
     (\<forall>x \<in> set (supportedFestivals C).
        \<not> (name x = fs \<and> (case q of None \<Rightarrow> False | Some y \<Rightarrow> y \<in> set (years x))))"
  unfolding find_edition_def by (rule first_match_None)

text \<open>
  Claim C8. A \<open>/customize\<close> request whose festival or year parameter is missing (or
  empty), or whose festival name and parsed year are not an edition of the catalog
  (a festival of that exact name with the year among its years), is answered 400 with
  a short message, and the handler sends nothing to the session store. Every answer
  of this handler that is not a render is such a 400.
\<close>

theorem bad_query_is_refused_without_mutation:
  "(falsy festivalParam \<or> falsy yearParam \<longrightarrow>
      customize C H isProd uid festivalParam yearParam =
        (Send 400 ''You need to choose a festival first.'', []))
   \<and> (\<not> falsy festivalParam \<and> \<not> falsy yearParam
       \<and> (\<forall>x \<in> set (supportedFestivals C).
             \<not> (name x = the festivalParam
                \<and> (case parseInt (the yearParam) of
                      None \<Rightarrow> False
                    | Some y \<Rightarrow> y \<in> set (years x)))) \<longrightarrow>
      customize C H isProd uid festivalParam yearParam =
        (Send 400 ''Invalid query params'', []))
   \<and> (\<forall>n msg evs. customize C H isProd uid festivalParam yearParam = (Send n msg, evs)
         \<longrightarrow> n = 400 \<and> evs = [])"
proof (intro conjI impI allI)
  assume "falsy festivalParam \<or> falsy yearParam"
  then show "customize C H isProd uid festivalParam yearParam =
        (Send 400 ''You need to choose a festival first.'', [])"
    by (simp add: customize_def)
next
  assume a: "\<not> falsy festivalParam \<and> \<not> falsy yearParam
       \<and> (\<forall>x \<in> set (supportedFestivals C).
             \<not> (name x = the festivalParam
                \<and> (case parseInt (the yearParam) of
                      None \<Rightarrow> False
                    | Some y \<Rightarrow> y \<in> set (years x))))"
  then have "find_edition C (the festivalParam) (parseInt (the yearParam)) = None"
    by (simp add: find_edition_None)
  with a show "customize C H isProd uid festivalParam yearParam =
        (Send 400 ''Invalid query params'', [])"
    by (simp add: customize_def Let_def)
next
  fix n msg evs
  assume "customize C H isProd uid festivalParam yearParam = (Send n msg, evs)"
  then show "n = 400" "evs = []"
    by (auto simp: customize_def Let_def split: if_splits option.splits prod.splits)
qed

lemma parseInt_2025: "parseInt ''2025'' = Some 2025"
  by (simp add: parseInt_def is_space_def is_digit_def digits_value_def digit_value_def
      to_double_def)

lemma parseInt_2023: "parseInt ''2023'' = Some 2023"
  by (simp add: parseInt_def is_space_def is_digit_def digits_value_def digit_value_def
      to_double_def)

text \<open>
  The year may come with white space before it, the no-break space included, and a
  digit string beyond \<open>2^53\<close> is the double next to it.
\<close>

lemma parseInt_skips_no_break_space:
  "parseInt [CHR 0xA0, CHR ''2'', CHR ''0'', CHR ''2'', CHR ''3''] = Some 2023"
  by (simp add: parseInt_def is_space_def is_digit_def digits_value_def digit_value_def
      to_double_def)

lemma parseInt_rounds_to_double:
  "parseInt ''9007199254740993'' = Some 9007199254740992"
  by (simp add: parseInt_def is_space_def is_digit_def digits_value_def digit_value_def
      to_double_def bit_length.simps Let_def)

theorem bad_query_is_refused_without_mutation_witness:
  "customize demo_constants (demo_helper (Some demo_session)) False ''u'' None (Some ''2024'')
     = (Send 400 ''You need to choose a festival first.'', [])
   \<and> customize demo_constants (demo_helper (Some demo_session)) False ''u''
        (Some ''Coachella'') (Some ''2025'')
     = (Send 400 ''Invalid query params'', [])"
proof -
  have a: "falsy None \<or> falsy (Some ''2024'')"
    by (simp add: falsy_def)
  have b: "\<not> falsy (Some ''Coachella'') \<and> \<not> falsy (Some ''2025'')
       \<and> (\<forall>x \<in> set (supportedFestivals demo_constants).
             \<not> (name x = the (Some ''Coachella'')
                \<and> (case parseInt (the (Some ''2025'')) of
                      None \<Rightarrow> False
                    | Some y \<Rightarrow> y \<in> set (years x))))"
    by (simp add: falsy_def parseInt_2025 demo_defs)
  from bad_query_is_refused_without_mutation
         [of None "Some ''2024''" demo_constants "demo_helper (Some demo_session)" False "''u''"]
       bad_query_is_refused_without_mutation
         [of "Some ''Coachella''" "Some ''2025''" demo_constants
             "demo_helper (Some demo_session)" False "''u''"]
       a b
  show ?thesis by blast
qed

lemma new_session_fields:
  "session_fields (newSessionData festival y) =
     [(''festivalName'', name festival),
      (''festivalDisplayName'', display_name festival),
      (''festivalYear'', number_toString y)]"
  by (simp add: session_fields_def newSessionData_def)

lemma reset_store:
  assumes "st' = exec_events [HDel k stale_fields, HMSet k (newSessionData festival y)] st"
  shows "(\<forall>f \<in> set stale_fields. st' k f = None)
       \<and> st' k ''festivalName'' = Some (name festival)
       \<and> st' k ''festivalDisplayName'' = Some (display_name festival)
       \<and> st' k ''festivalYear'' = Some (number_toString y)
       \<and> (\<forall>f. f \<notin> set stale_fields
                \<and> f \<notin> {''festivalName'', ''festivalDisplayName'', ''festivalYear''}
              \<longrightarrow> st' k f = st k f)
       \<and> (\<forall>k'. k' \<noteq> k \<longrightarrow> st' k' = st k')"
  unfolding assms
  by (simp add: exec_events_def new_session_fields stale_fields_def map_add_def)

lemma customize_found:
  assumes "fs \<noteq> []" and "ys \<noteq> []" and "parseInt ys = Some y"
    and "find_edition C fs (Some y) = Some festival"
  shows "customize C H isProd uid (Some fs) (Some ys) =
           (Render ''customize-list''
              (customize_page C H isProd festival y
                 (fst (session_branch (getSessionData H uid) uid festival y))),
            snd (session_branch (getSessionData H uid) uid festival y))"
proof -
  from find_edition_Some [OF assms(4)] assms(1) have "name festival \<noteq> []" by simp
  with assms show ?thesis
    by (simp add: customize_def falsy_def Let_def case_prod_unfold)
qed

text \<open>
  Claim C7. When \<open>/customize\<close> renders for a festival and year that the stored session
  does not match (or no session is stored), it sends exactly two commands to the
  store: an \<open>HDEL\<close> of the fields tracksPerArtist, artistIdsStr, trackIdsStr,
  trackType, playlistName, selectedDaysStr and selectedGenresStr, then an \<open>HMSET\<close> of
  the record that holds only festivalName, festivalDisplayName and festivalYear.
  After the two commands none of the seven fields is in the stored session, the
  three fields hold the new festival and year, and every other field is as before.
\<close>

theorem reset_deletes_stale_fields:
  assumes "customize C H isProd uid festivalParam yearParam = (Render v d, evs)"
    and "\<forall>s. getSessionData H uid = Some s
             \<longrightarrow> \<not> session_matches s (cp_festival d) (cp_festivalYear d)"
  shows "evs = [HDel (sessionKey uid)
                  [''tracksPerArtist'', ''artistIdsStr'', ''trackIdsStr'', ''trackType'',
                   ''playlistName'', ''selectedDaysStr'', ''selectedGenresStr''],
                HMSet (sessionKey uid)
                  \<lparr> festivalName = name (cp_festival d),
                    festivalDisplayName = display_name (cp_festival d),
                    festivalYear = cp_festivalYear d,
                    trackType = None, tracksPerArtist = None, artistIdsStr = None,
                    selectedGenresStr = None, selectedDaysStr = None, trackIdsStr = None,
                    playlistName = None, playlistUrl = None \<rparr>]
       \<and> (\<forall>st. \<forall>f \<in> set [''tracksPerArtist'', ''artistIdsStr'', ''trackIdsStr'',
                             ''trackType'', ''playlistName'', ''selectedDaysStr'',
                             ''selectedGenresStr''].
              exec_events evs st (sessionKey uid) f = None)
       \<and> (\<forall>st. exec_events evs st (sessionKey uid) ''festivalName''
                   = Some (name (cp_festival d))
              \<and> exec_events evs st (sessionKey uid) ''festivalDisplayName''
                   = Some (display_name (cp_festival d))
              \<and> exec_events evs st (sessionKey uid) ''festivalYear''
                   = Some (number_toString (cp_festivalYear d)))
       \<and> (\<forall>st f. f \<notin> set [''tracksPerArtist'', ''artistIdsStr'', ''trackIdsStr'',
                              ''trackType'', ''playlistName'', ''selectedDaysStr'',
                              ''selectedGenresStr'', ''festivalName'',
                              ''festivalDisplayName'', ''festivalYear'']
              \<longrightarrow> exec_events evs st (sessionKey uid) f = st (sessionKey uid) f)"
proof -
  from customize_Render [OF assms(1)] obtain festival y sel where
    br: "session_branch (getSessionData H uid) uid festival y = (sel, evs)"
    and d: "d = customize_page C H isProd festival y sel"
    by blast
  have f: "cp_festival d = festival" "cp_festivalYear d = y"
    unfolding d by (rule customize_page_festival)+
  from br assms(2) have evs:
    "evs = [HDel (sessionKey uid) stale_fields,
            HMSet (sessionKey uid) (newSessionData festival y)]"
    unfolding f
    by (auto simp: session_branch_def reset_session_def split: option.splits if_splits)
  note rs = reset_store [OF refl, of "sessionKey uid" festival y]
  show ?thesis
    unfolding f
    apply (intro conjI)
       apply (simp add: evs stale_fields_def newSessionData_def)
    using rs apply (simp add: evs stale_fields_def)
    using rs apply (simp add: evs)
    using rs apply (simp add: evs stale_fields_def)
    done
qed

theorem reset_deletes_stale_fields_witness:
  "\<exists>d. customize demo_constants (demo_helper (Some demo_session)) False ''u''
          (Some ''Coachella'') (Some ''2023'') =
        (Render ''customize-list'' d,
         [HDel ''sessionData:u''
            [''tracksPerArtist'', ''artistIdsStr'', ''trackIdsStr'', ''trackType'',
             ''playlistName'', ''selectedDaysStr'', ''selectedGenresStr''],
          HMSet ''sessionData:u'' (newSessionData coachella 2023)])"
proof -
  let ?H = "demo_helper (Some demo_session)"
  let ?b = "session_branch (getSessionData ?H ''u'') ''u'' coachella 2023"
  let ?d = "customize_page demo_constants ?H False coachella 2023 (fst ?b)"
  have fe: "find_edition demo_constants ''Coachella'' (Some 2023) = Some coachella"
    by (simp add: find_edition_def first_match_def demo_defs)
  have run: "customize demo_constants ?H False ''u'' (Some ''Coachella'') (Some ''2023'') =
               (Render ''customize-list'' ?d, snd ?b)"
    by (rule customize_found [OF _ _ parseInt_2023 fe]) simp_all
  have nm: "\<forall>s. getSessionData ?H ''u'' = Some s
              \<longrightarrow> \<not> session_matches s (cp_festival ?d) (cp_festivalYear ?d)"
    by (simp add: customize_page_festival session_matches_def demo_helper_def demo_session_def)
  from reset_deletes_stale_fields [OF run nm]
  have "snd ?b =
          [HDel ''sessionData:u''
            [''tracksPerArtist'', ''artistIdsStr'', ''trackIdsStr'', ''trackType'',
             ''playlistName'', ''selectedDaysStr'', ''selectedGenresStr''],
           HMSet ''sessionData:u'' (newSessionData coachella 2023)]"
    by (simp add: customize_page_festival sessionKey_def newSessionData_def)
  with run show ?thesis by simp
qed

text \<open>
  A year parameter that starts with a no-break space is parsed like the year alone:
  the page is rendered and, with no session stored, the session is reset.
\<close>

lemma customize_accepts_no_break_space_year:
  "customize demo_constants (demo_helper None) False ''u'' (Some ''Coachella'')
     (Some [CHR 0xA0, CHR ''2'', CHR ''0'', CHR ''2'', CHR ''3'']) =
     (Render ''customize-list''
        (customize_page demo_constants (demo_helper None) False coachella 2023
           (fst (reset_session ''u'' coachella 2023))),
      [HDel (sessionKey ''u'') stale_fields,
       HMSet (sessionKey ''u'') (newSessionData coachella 2023)])"
proof -
  have fe: "find_edition demo_constants ''Coachella'' (Some 2023) = Some coachella"
    by (simp add: find_edition_def first_match_def demo_defs)
  have g: "getSessionData (demo_helper None) ''u'' = None"
    by (simp add: demo_helper_def)
  have b: "session_branch None ''u'' coachella 2023 = reset_session ''u'' coachella 2023"
    by (simp add: session_branch_def)
  have "customize demo_constants (demo_helper None) False ''u'' (Some ''Coachella'')
          (Some [CHR 0xA0, CHR ''2'', CHR ''0'', CHR ''2'', CHR ''3'']) =
        (Render ''customize-list''
           (customize_page demo_constants (demo_helper None) False coachella 2023
              (fst (reset_session ''u'' coachella 2023))),
         snd (reset_session ''u'' coachella 2023))"
    using customize_found [OF _ _ parseInt_skips_no_break_space fe,
        of "demo_helper None" False "''u''"]
    unfolding g b by simp
  then show ?thesis
    by (simp add: reset_session_def)
qed

section \<open>The selection merger\<close>

lemma code_unit_less_irrefl: "\<not> code_unit_less s s"
  by (induction s) simp_all

lemma insert_by_front: "(\<And>y. cmp x y \<le> 0) \<Longrightarrow> insert_by cmp x ys = x # ys"
  by (cases ys) simp_all

lemma sort_objects_id: "sort_objects xs = xs"
proof -
  have c: "default_compare object_toString x y \<le> 0" for x y :: "'a StatefulObject"
    by (simp add: default_compare_def object_toString_def)
  show ?thesis
    unfolding sort_objects_def array_sort_def
    by (induction xs) (simp_all add: insert_by_front [of "default_compare object_toString", OF c])
qed

lemma map_set_absent: "k \<notin> fst ` set m \<Longrightarrow> map_set k v m = m @ [(k, v)]"
  by (induction m) auto

lemma map_set_key_list:
  "map fst (map_set k v m) = (if k \<in> fst ` set m then map fst m else map fst m @ [k])"
  by (induction m) (force+)

lemma map_set_keys: "fst ` set (map_set k v m) = insert k (fst ` set m)"
proof -
  have "set (map fst (map_set k v m)) = insert k (set (map fst m))"
    unfolding map_set_key_list by auto
  then show ?thesis by simp
qed

lemma map_set_entries: "set (map_set k v m) \<subseteq> insert (k, v) (set m)"
  by (induction m) (auto split: if_splits)

lemma genre_step_eq:
  "genre_step mgl pg g (mm, sm) =
     (if g \<in> set mgl
      then (if g \<in> fst ` set mm then mm else mm @ [(g, entry pg g)], sm)
      else (mm, if g \<in> fst ` set sm then sm else sm @ [(g, entry pg g)]))"
  by (simp add: genre_step_def map_has_def map_set_absent entry_def)

lemma genre_step_inv:
  "genre_inv mgl pg maps \<Longrightarrow> genre_inv mgl pg (genre_step mgl pg g maps)"
  by (cases maps) (auto simp: genre_inv_def genre_step_eq)

lemma genre_step_keys:
  "fst ` set (fst (genre_step mgl pg g maps)) =
     fst ` set (fst maps) \<union> (if g \<in> set mgl then {g} else {})"
  "fst ` set (snd (genre_step mgl pg g maps)) =
     fst ` set (snd maps) \<union> (if g \<in> set mgl then {} else {g})"
  by (cases maps; auto simp: genre_step_eq)+

lemma genres_loop_inv:
  "genre_inv mgl pg maps \<Longrightarrow> genre_inv mgl pg (genres_loop mgl pg gs maps)"
  by (induction gs arbitrary: maps) (simp_all add: genre_step_inv)

lemma genres_loop_keys:
  "fst ` set (fst (genres_loop mgl pg gs maps)) =
     fst ` set (fst maps) \<union> {g \<in> set gs. g \<in> set mgl}"
  "fst ` set (snd (genres_loop mgl pg gs maps)) =
     fst ` set (snd maps) \<union> {g \<in> set gs. g \<notin> set mgl}"
  by (induction gs arbitrary: maps; auto simp: genre_step_keys)+

lemma genres_loop_append:
  "genres_loop mgl pg (xs @ ys) maps = genres_loop mgl pg ys (genres_loop mgl pg xs maps)"
  by (induction xs arbitrary: maps) simp_all

lemma artists_loop_eq:
  "artists_loop mgl pa pg as maps =
     (map (\<lambda>a. a\<lparr>checkedStr := checked_for pa (artist_id a)\<rparr>) as,
      genres_loop mgl pg (all_genres as) maps)"
  by (induction as arbitrary: maps)
     (simp_all add: all_genres_def genres_loop_append Let_def split: prod.splits)

lemma genres_loop_persist:
  "map_of (fst maps) g = Some v \<Longrightarrow> map_of (fst (genres_loop mgl pg gs maps)) g = Some v"
  "map_of (snd maps) g = Some v \<Longrightarrow> map_of (snd (genres_loop mgl pg gs maps)) g = Some v"
proof (induction gs arbitrary: maps)
  case Nil
  { case 1 then show ?case by simp }
  { case 2 then show ?case by simp }
next
  case (Cons x gs)
  { case 1
    then have "map_of (fst (genre_step mgl pg x maps)) g = Some v"
      by (cases maps) (auto simp: genre_step_eq map_add_def)
    from Cons.IH(1) [OF this] show ?case by simp }
  { case 2
    then have "map_of (snd (genre_step mgl pg x maps)) g = Some v"
      by (cases maps) (auto simp: genre_step_eq map_add_def)
    from Cons.IH(2) [OF this] show ?case by simp }
qed

lemma days_loop_inv: "day_inv pd m \<Longrightarrow> day_inv pd (days_loop pd ds m)"
proof (induction ds arbitrary: m)
  case Nil
  then show ?case by simp
next
  case (Cons d ds)
  let ?k = "number_toString (number d)"
  let ?v = "\<lparr> state = checked_for pd ?k, obj = d \<rparr>"
  have "day_inv pd (map_set ?k ?v m)"
    using Cons.prems map_set_entries [of ?k ?v m]
    by (auto simp: day_inv_def)
  from Cons.IH [OF this] show ?case by (simp add: Let_def)
qed

lemma days_loop_keys:
  "fst ` set (days_loop pd ds m) =
     fst ` set m \<union> (\<lambda>d. number_toString (number d)) ` set ds"
  by (induction ds arbitrary: m) (auto simp: Let_def map_set_keys)

lemma days_loop_items:
  assumes "day_inv pd m"
  shows "(\<lambda>s. number_toString (number (obj s))) ` set (map snd (days_loop pd ds m)) =
           fst ` set (days_loop pd ds m)"
proof -
  from days_loop_inv [OF assms, of ds]
  have "\<forall>(k, v) \<in> set (days_loop pd ds m). number_toString (number (obj v)) = k"
    by (fastforce simp: day_inv_def)
  then show ?thesis by (force simp: image_iff)
qed

lemma customize_page_fields:
  "cp_artists (customize_page C H isProd festival y sel) =
     map (\<lambda>a. a\<lparr>checkedStr := checked_for (sel_artists sel) (artist_id a)\<rparr>)
       (getArtistsForFestival H (name festival) y)"
  "cp_mainGenres (customize_page C H isProd festival y sel) =
     map snd (fst (genres_loop (mainGenres C) (sel_genres sel)
                     (all_genres (getArtistsForFestival H (name festival) y)) ([], [])))"
  "cp_specificGenres (customize_page C H isProd festival y sel) =
     map snd (snd (genres_loop (mainGenres C) (sel_genres sel)
                     (all_genres (getArtistsForFestival H (name festival) y)) ([], [])))"
  "cp_days (customize_page C H isProd festival y sel) =
     map snd (days_loop (sel_days sel)
                (map (getLineupDayMetadata H (name festival) y)
                   (getLineupDays H (name festival) y)) [])"
  by (simp_all add: customize_page_def Let_def artists_loop_eq sort_objects_id map_values_def
      split: prod.splits)

lemma session_branch_previous:
  "sel_artists (fst (session_branch sd uid festival y)) = spec_previous sd festival y artistIdsStr"
  "sel_genres (fst (session_branch sd uid festival y)) = spec_previous sd festival y selectedGenresStr"
  "sel_days (fst (session_branch sd uid festival y)) = spec_previous sd festival y selectedDaysStr"
  by (simp_all add: session_branch_def spec_previous_def restore_selections_def
      reset_session_def Let_def split: option.splits prod.splits)

lemma follows_ruleI:
  "(\<And>i. i \<in> set items \<Longrightarrow> st i = checked_for p (ident i)) \<Longrightarrow> follows_rule p ident st items"
  by (auto simp: follows_rule_def checked_for_def list_all_iff split: option.splits)

lemma genre_inv_empty: "genre_inv mgl pg ([], [])"
  by (simp add: genre_inv_def)

lemma genre_entries:
  assumes "genres_loop mgl pg gs ([], []) = (mm, sm)"
  shows "map snd mm = map (entry pg) (map fst mm)"
    and "map snd sm = map (entry pg) (map fst sm)"
    and "distinct (map fst mm)" and "distinct (map fst sm)"
    and "set (map fst mm) = {g \<in> set gs. g \<in> set mgl}"
    and "set (map fst sm) = {g \<in> set gs. g \<notin> set mgl}"
proof -
  from genres_loop_inv [OF genre_inv_empty, of mgl pg gs] assms
  have inv: "genre_inv mgl pg (mm, sm)" by simp
  then show "map snd mm = map (entry pg) (map fst mm)"
    by (auto simp: genre_inv_def)
  from inv show "map snd sm = map (entry pg) (map fst sm)"
    by (auto simp: genre_inv_def)
  from inv show "distinct (map fst mm)" "distinct (map fst sm)"
    by (simp_all add: genre_inv_def)
  from genres_loop_keys [of mgl pg gs "([], [])"] assms
  show "set (map fst mm) = {g \<in> set gs. g \<in> set mgl}"
    "set (map fst sm) = {g \<in> set gs. g \<notin> set mgl}"
    by simp_all
qed

lemma one_entry:
  "distinct (map f xs) \<Longrightarrow> y \<in> f ` set xs \<Longrightarrow> length (filter (\<lambda>e. f e = y) xs) = 1"
proof (induction xs)
  case Nil
  then show ?case by simp
next
  case (Cons x xs)
  show ?case
  proof (cases "f x = y")
    case True
    from Cons.prems(1) have "f x \<notin> f ` set xs" by simp
    with True have "\<forall>e \<in> set xs. f e \<noteq> y" by blast
    then have "filter (\<lambda>e. f e = y) xs = []"
      by (simp add: filter_empty_conv)
    with True show ?thesis by simp
  next
    case False
    with Cons show ?thesis by auto
  qed
qed

lemma customize_Render_page:
  assumes "customize C H isProd uid fp yp = (Render v d, evs)"
  shows "d = customize_page C H isProd (cp_festival d) (cp_festivalYear d)
             (fst (session_branch (getSessionData H uid) uid (cp_festival d) (cp_festivalYear d)))"
proof -
  from customize_Render [OF assms] obtain festival y sel where
    br: "session_branch (getSessionData H uid) uid festival y = (sel, evs)"
    and d: "d = customize_page C H isProd festival y sel"
    by blast
  have f: "cp_festival d = festival" "cp_festivalYear d = y"
    unfolding d by (rule customize_page_festival)+
  from br d show ?thesis unfolding f by simp
qed

lemma days_follow_rule:
  "follows_rule pd (\<lambda>s. number_toString (number (obj s))) state
     (map snd (days_loop pd ds []))"
proof (rule follows_ruleI)
  fix i assume "i \<in> set (map snd (days_loop pd ds []))"
  then obtain k where "(k, i) \<in> set (days_loop pd ds [])" by auto
  moreover have "day_inv pd (days_loop pd ds [])"
    by (rule days_loop_inv) (simp add: day_inv_def)
  ultimately show "state i = checked_for pd (number_toString (number (obj i)))"
    by (auto simp: day_inv_def)
qed

lemma genres_follow_rule:
  "follows_rule pg obj state (map snd (fst (genres_loop mgl pg gs ([], []))))"
  "follows_rule pg obj state (map snd (snd (genres_loop mgl pg gs ([], []))))"
proof -
  obtain mm sm where r: "genres_loop mgl pg gs ([], []) = (mm, sm)"
    by (cases "genres_loop mgl pg gs ([], [])")
  note e = genre_entries [OF r]
  show "follows_rule pg obj state (map snd (fst (genres_loop mgl pg gs ([], []))))"
    unfolding r fst_conv e(1) by (rule follows_ruleI) (auto simp: entry_def)
  show "follows_rule pg obj state (map snd (snd (genres_loop mgl pg gs ([], []))))"
    unfolding r snd_conv e(2) by (rule follows_ruleI) (auto simp: entry_def)
qed

lemma genres_rendered:
  "obj ` set (map snd (fst (genres_loop mgl pg gs ([], [])))) = {g \<in> set gs. g \<in> set mgl}"
  "obj ` set (map snd (snd (genres_loop mgl pg gs ([], [])))) = {g \<in> set gs. g \<notin> set mgl}"
proof -
  obtain mm sm where r: "genres_loop mgl pg gs ([], []) = (mm, sm)"
    by (cases "genres_loop mgl pg gs ([], [])")
  note e = genre_entries [OF r]
  have "map obj (map snd mm) = map fst mm" "map obj (map snd sm) = map fst sm"
    unfolding e(1) e(2) by (simp_all add: entry_def)
  then have "obj ` set (map snd mm) = set (map fst mm)" "obj ` set (map snd sm) = set (map fst sm)"
    by (metis set_map)+
  then show "obj ` set (map snd (fst (genres_loop mgl pg gs ([], [])))) = {g \<in> set gs. g \<in> set mgl}"
    "obj ` set (map snd (snd (genres_loop mgl pg gs ([], [])))) = {g \<in> set gs. g \<notin> set mgl}"
    unfolding r fst_conv snd_conv e(5) e(6) by simp_all
qed

text \<open>
  Claim C1. On the rendered \<open>/customize\<close> page, for each dimension (artists, main
  genres, specific genres, days): when the previously selected list of the dimension
  is absent from the session, every item is "checked"; when it is present, even
  empty, an item is "checked" if its identifier (artist id, genre string, day number
  as a string) is in the list and unchecked otherwise. The items are all the
  festival's artists, the genres of those artists (main genres in one list, the rest
  in the other) and the lineup days.
\<close>

theorem checked_state_follows_previous_selection:
  assumes "customize C H isProd uid festivalParam yearParam = (Render v d, evs)"
  shows "follows_rule
           (spec_previous (getSessionData H uid) (cp_festival d) (cp_festivalYear d) artistIdsStr)
           artist_id checkedStr (cp_artists d)
       \<and> follows_rule
           (spec_previous (getSessionData H uid) (cp_festival d) (cp_festivalYear d)
              selectedGenresStr)
           obj state (cp_mainGenres d)
       \<and> follows_rule
           (spec_previous (getSessionData H uid) (cp_festival d) (cp_festivalYear d)
              selectedGenresStr)
           obj state (cp_specificGenres d)
       \<and> follows_rule
           (spec_previous (getSessionData H uid) (cp_festival d) (cp_festivalYear d)
              selectedDaysStr)
           (\<lambda>s. number_toString (number (obj s))) state (cp_days d)
       \<and> map artist_id (cp_artists d) =
           map artist_id (getArtistsForFestival H (name (cp_festival d)) (cp_festivalYear d))
       \<and> obj ` set (cp_mainGenres d) =
           {g \<in> set (all_genres (getArtistsForFestival H (name (cp_festival d))
                                  (cp_festivalYear d))). g \<in> set (mainGenres C)}
       \<and> obj ` set (cp_specificGenres d) =
           {g \<in> set (all_genres (getArtistsForFestival H (name (cp_festival d))
                                  (cp_festivalYear d))). g \<notin> set (mainGenres C)}
       \<and> (\<lambda>s. number_toString (number (obj s))) ` set (cp_days d) =
           (\<lambda>n. number_toString
                  (number (getLineupDayMetadata H (name (cp_festival d)) (cp_festivalYear d) n)))
             ` set (getLineupDays H (name (cp_festival d)) (cp_festivalYear d))"
proof -
  let ?f = "cp_festival d" and ?y = "cp_festivalYear d"
  let ?sel = "fst (session_branch (getSessionData H uid) uid ?f ?y)"
  note d = customize_Render_page [OF assms]
  have a: "follows_rule (sel_artists ?sel) artist_id checkedStr (cp_artists d)"
    by (subst d, unfold customize_page_fields, rule follows_ruleI) auto
  have m: "follows_rule (sel_genres ?sel) obj state (cp_mainGenres d)"
    by (subst d, unfold customize_page_fields, rule genres_follow_rule)
  have s: "follows_rule (sel_genres ?sel) obj state (cp_specificGenres d)"
    by (subst d, unfold customize_page_fields, rule genres_follow_rule)
  have dd: "follows_rule (sel_days ?sel) (\<lambda>s. number_toString (number (obj s))) state (cp_days d)"
    by (subst d, unfold customize_page_fields, rule days_follow_rule)
  have ia: "map artist_id (cp_artists d) = map artist_id (getArtistsForFestival H (name ?f) ?y)"
    by (subst d, unfold customize_page_fields) (simp add: comp_def)
  have im: "obj ` set (cp_mainGenres d) =
           {g \<in> set (all_genres (getArtistsForFestival H (name ?f) ?y)). g \<in> set (mainGenres C)}"
    by (subst d, unfold customize_page_fields, rule genres_rendered)
  have isp: "obj ` set (cp_specificGenres d) =
           {g \<in> set (all_genres (getArtistsForFestival H (name ?f) ?y)). g \<notin> set (mainGenres C)}"
    by (subst d, unfold customize_page_fields, rule genres_rendered)
  have idd: "(\<lambda>s. number_toString (number (obj s))) ` set (cp_days d) =
           (\<lambda>n. number_toString (number (getLineupDayMetadata H (name ?f) ?y n)))
             ` set (getLineupDays H (name ?f) ?y)"
    apply (subst d, unfold customize_page_fields)
    apply (subst days_loop_items)
     apply (simp add: day_inv_def)
    apply (simp add: days_loop_keys image_image)
    done
  from a m s dd ia im isp idd show ?thesis
    unfolding session_branch_previous by blast
qed

lemmas parseInt_eval = parseInt_def is_space_def is_digit_def digits_value_def digit_value_def
  to_double_def

lemma demo_customize_2024:
  "customize demo_constants (demo_helper sd) False ''u'' (Some ''Coachella'') (Some ''2024'') =
     (Render ''customize-list''
        (customize_page demo_constants (demo_helper sd) False coachella 2024
           (fst (session_branch sd ''u'' coachella 2024))),
      snd (session_branch sd ''u'' coachella 2024))"
proof -
  have fe: "find_edition demo_constants ''Coachella'' (Some 2024) = Some coachella"
    by (simp add: find_edition_def first_match_def demo_defs)
  have p: "parseInt ''2024'' = Some 2024"
    by (simp add: parseInt_eval)
  have g: "getSessionData (demo_helper sd) ''u'' = sd"
    by (simp add: demo_helper_def)
  show ?thesis
    using customize_found [OF _ _ p fe, of "demo_helper sd" False "''u''"]
    unfolding g by simp
qed

theorem checked_state_follows_previous_selection_witness:
  "\<exists>d. customize demo_constants (demo_helper (Some demo_session)) False ''u''
          (Some ''Coachella'') (Some ''2024'') = (Render ''customize-list'' d, [])
     \<and> follows_rule (Some [''a2'', ''a1'']) artist_id checkedStr (cp_artists d)
     \<and> follows_rule (Some [''rock'']) obj state (cp_mainGenres d)
     \<and> follows_rule (Some [''rock'']) obj state (cp_specificGenres d)
     \<and> follows_rule (Some [''2'']) (\<lambda>s. number_toString (number (obj s))) state (cp_days d)
     \<and> map artist_id (cp_artists d) = [''a1'', ''a2'']
     \<and> obj ` set (cp_mainGenres d) = {''rock'', ''pop''}
     \<and> obj ` set (cp_specificGenres d) = {''indie''}"
proof -
  let ?H = "demo_helper (Some demo_session)"
  let ?b = "session_branch (Some demo_session) ''u'' coachella 2024"
  let ?d = "customize_page demo_constants ?H False coachella 2024 (fst ?b)"
  have evs: "snd ?b = []"
    by (simp add: session_branch_def session_matches_def restore_selections_def
        demo_session_def coachella_def)
  have run: "customize demo_constants ?H False ''u'' (Some ''Coachella'') (Some ''2024'') =
               (Render ''customize-list'' ?d, [])"
    using demo_customize_2024 [of "Some demo_session"] unfolding evs .
  have pa: "spec_previous (getSessionData ?H ''u'') (cp_festival ?d) (cp_festivalYear ?d)
              artistIdsStr = Some [''a2'', ''a1'']"
    and pg: "spec_previous (getSessionData ?H ''u'') (cp_festival ?d) (cp_festivalYear ?d)
              selectedGenresStr = Some [''rock'']"
    and pd: "spec_previous (getSessionData ?H ''u'') (cp_festival ?d) (cp_festivalYear ?d)
              selectedDaysStr = Some [''2'']"
    by (simp_all add: customize_page_festival spec_previous_def session_matches_def
        demo_helper_def demo_session_def coachella_def)
  have ar: "getArtistsForFestival ?H (name (cp_festival ?d)) (cp_festivalYear ?d)
              = [artist1, artist2]"
    by (simp add: demo_helper_def)
  have ag: "{g \<in> set (all_genres [artist1, artist2]). g \<in> set (mainGenres demo_constants)}
              = {''rock'', ''pop''}"
    "{g \<in> set (all_genres [artist1, artist2]). g \<notin> set (mainGenres demo_constants)}
              = {''indie''}"
    by (auto simp: all_genres_def demo_defs)
  have ai: "map artist_id [artist1, artist2] = [''a1'', ''a2'']"
    by (simp add: demo_defs)
  note t = checked_state_follows_previous_selection [OF run, unfolded pa pg pd ar ag ai]
  show ?thesis
    apply (rule exI [of _ ?d])
    apply (insert run t)
    apply (elim conjE)
    apply (intro conjI; assumption)
    done
qed

lemma genres_once:
  assumes "g \<in> set gs"
  shows "length (filter (\<lambda>e. obj e = g)
           (map snd (fst (genres_loop mgl pg gs ([], [])))
            @ map snd (snd (genres_loop mgl pg gs ([], []))))) = 1"
proof -
  obtain mm sm where r: "genres_loop mgl pg gs ([], []) = (mm, sm)"
    by (cases "genres_loop mgl pg gs ([], [])")
  note e = genre_entries [OF r]
  have om: "map obj (map snd mm) = map fst mm" and os: "map obj (map snd sm) = map fst sm"
    unfolding e(1) e(2) by (simp_all add: entry_def)
  have eq: "map obj (map snd mm @ map snd sm) = map fst mm @ map fst sm"
    unfolding map_append om os by (rule refl)
  have d2: "distinct (map fst mm @ map fst sm)"
    using e(3) e(4) e(5) e(6) by auto
  have dist: "distinct (map obj (map snd mm @ map snd sm))"
    unfolding eq by (rule d2)
  have "g \<in> set (map fst mm @ map fst sm)"
    using assms e(5) e(6) by auto
  then have "g \<in> set (map obj (map snd mm @ map snd sm))"
    unfolding eq .
  then have "g \<in> obj ` set (map snd mm @ map snd sm)"
    by (metis set_map)
  from one_entry [OF dist this] show ?thesis
    unfolding r by simp
qed

text \<open>
  Claim C4. Every genre of some artist, in however many artists' genre lists it
  occurs, has exactly one entry in the merged output (main and specific genres
  together); the state of every entry, main or specific, comes from the one
  previously-selected-genres list; and an entry that is in a map stays as it is
  whatever genres the loop meets later, so the state is the one of the first
  occurrence.
\<close>

theorem genre_has_one_entry_fixed_at_first_occurrence:
  assumes "customize C H isProd uid festivalParam yearParam = (Render v d, evs)"
  shows "(\<forall>g \<in> set (all_genres (getArtistsForFestival H (name (cp_festival d))
                                  (cp_festivalYear d))).
            length (filter (\<lambda>e. obj e = g) (cp_mainGenres d @ cp_specificGenres d)) = 1)
       \<and> (\<forall>e \<in> set (cp_mainGenres d @ cp_specificGenres d).
            state e = checked_for
                        (spec_previous (getSessionData H uid) (cp_festival d)
                           (cp_festivalYear d) selectedGenresStr)
                        (obj e))
       \<and> (\<forall>mgl pg gs maps g e.
             (map_of (fst maps) g = Some e
                \<longrightarrow> map_of (fst (genres_loop mgl pg gs maps)) g = Some e)
           \<and> (map_of (snd maps) g = Some e
                \<longrightarrow> map_of (snd (genres_loop mgl pg gs maps)) g = Some e))"
proof -
  let ?f = "cp_festival d" and ?y = "cp_festivalYear d"
  let ?sel = "fst (session_branch (getSessionData H uid) uid ?f ?y)"
  let ?gs = "all_genres (getArtistsForFestival H (name ?f) ?y)"
  let ?r = "genres_loop (mainGenres C) (sel_genres ?sel) ?gs ([], [])"
  note d = customize_Render_page [OF assms]
  have m: "cp_mainGenres d = map snd (fst ?r)" and s: "cp_specificGenres d = map snd (snd ?r)"
    by (subst d, unfold customize_page_fields, rule refl)+
  have one: "\<forall>g \<in> set ?gs.
            length (filter (\<lambda>e. obj e = g) (cp_mainGenres d @ cp_specificGenres d)) = 1"
    unfolding m s using genres_once by blast
  obtain mm sm where r: "?r = (mm, sm)" by (cases ?r)
  note e = genre_entries [OF r]
  have st: "\<forall>e \<in> set (cp_mainGenres d @ cp_specificGenres d).
            state e = checked_for (sel_genres ?sel) (obj e)"
    unfolding m s r fst_conv snd_conv e(1) e(2) by (auto simp: entry_def)
  from one st genres_loop_persist show ?thesis
    unfolding session_branch_previous by blast
qed

theorem genre_has_one_entry_fixed_at_first_occurrence_witness:
  "\<exists>d. customize demo_constants (demo_helper (Some demo_session)) False ''u''
          (Some ''Coachella'') (Some ''2024'') = (Render ''customize-list'' d, [])
     \<and> length (filter (\<lambda>e. obj e = ''rock'') (cp_mainGenres d @ cp_specificGenres d)) = 1
     \<and> length (filter (\<lambda>e. obj e = ''indie'') (cp_mainGenres d @ cp_specificGenres d)) = 1"
proof -
  let ?H = "demo_helper (Some demo_session)"
  let ?b = "session_branch (Some demo_session) ''u'' coachella 2024"
  let ?d = "customize_page demo_constants ?H False coachella 2024 (fst ?b)"
  have evs: "snd ?b = []"
    by (simp add: session_branch_def session_matches_def restore_selections_def
        demo_session_def coachella_def)
  have run: "customize demo_constants ?H False ''u'' (Some ''Coachella'') (Some ''2024'') =
               (Render ''customize-list'' ?d, [])"
    using demo_customize_2024 [of "Some demo_session"] unfolding evs .
  have ar: "getArtistsForFestival ?H (name (cp_festival ?d)) (cp_festivalYear ?d)
              = [artist1, artist2]"
    by (simp add: demo_helper_def)
  have g: "''rock'' \<in> set (all_genres [artist1, artist2])"
    "''indie'' \<in> set (all_genres [artist1, artist2])"
    by (simp_all add: all_genres_def demo_defs)
  note t = genre_has_one_entry_fixed_at_first_occurrence
             [OF run, unfolded ar, THEN conjunct1, rule_format]
  from run t [OF g(1)] t [OF g(2)] show ?thesis
    by (intro exI [of _ ?d] conjI)
qed

section \<open>The festival dropdown\<close>

lemma set_spread_set: "set (set_spread seen xs) = set seen \<union> set xs"
  by (induction xs arbitrary: seen) auto

lemma mset_insert_by: "mset (insert_by cmp x ys) = add_mset x (mset ys)"
  by (induction ys) simp_all

lemma mset_array_sort: "mset (array_sort cmp xs) = mset xs"
  unfolding array_sort_def by (induction xs) (simp_all add: mset_insert_by)

lemma set_insert_by: "set (insert_by cmp x ys) = insert x (set ys)"
  by (induction ys) auto

lemma consistent_refl: "consistent_compare cmp \<Longrightarrow> cmp a a = 0"
  unfolding consistent_compare_def by (metis less_asym linorder_neqE_linordered_idom)

lemma consistent_total: "consistent_compare cmp \<Longrightarrow> \<not> cmp a b \<le> 0 \<Longrightarrow> cmp b a \<le> 0"
  unfolding consistent_compare_def by (metis not_le order_less_imp_le)

lemma sorted_insert_by:
  assumes "consistent_compare cmp" and "sorted_wrt (\<lambda>x y. cmp x y \<le> 0) ys"
  shows "sorted_wrt (\<lambda>x y. cmp x y \<le> 0) (insert_by cmp x ys)"
  using assms(2)
proof (induction ys)
  case Nil
  then show ?case by simp
next
  case (Cons y ys)
  show ?case
  proof (cases "cmp x y \<le> 0")
    case True
    have "cmp x z \<le> 0" if "z \<in> set ys" for z
    proof -
      from Cons.prems that have "cmp y z \<le> 0" by simp
      with True assms(1) show ?thesis
        unfolding consistent_compare_def by blast
    qed
    with True Cons.prems show ?thesis by simp
  next
    case False
    from consistent_total [OF assms(1) False] have "cmp y x \<le> 0" .
    with False Cons show ?thesis
      by (auto simp: set_insert_by)
  qed
qed

lemma sorted_array_sort:
  "consistent_compare cmp \<Longrightarrow> sorted_wrt (\<lambda>x y. cmp x y \<le> 0) (array_sort cmp xs)"
  unfolding array_sort_def by (induction xs) (simp_all add: sorted_insert_by)

lemma festival_compare_le:
  "(festival_compare lc x y \<le> 0) = dropdown_order lc x y"
  by (auto simp: festival_compare_def dropdown_order_def)

lemma consistent_festival_compare:
  assumes "consistent_compare lc"
  shows "consistent_compare (festival_compare lc)"
proof -
  from assms have sym: "\<And>a b. (lc a b < 0) = (lc b a > 0)"
    and tr: "\<And>a b c. lc a b \<le> 0 \<Longrightarrow> lc b c \<le> 0 \<Longrightarrow> lc a c \<le> 0"
    unfolding consistent_compare_def by blast+
  have zero: "lc a b = 0 \<longleftrightarrow> lc b a = 0" for a b
    using sym [of a b] sym [of b a] by linarith
  have lt_tr: "lc a c < 0" if "lc a b \<le> 0" "lc b c \<le> 0" "lc a b < 0 \<or> lc b c < 0" for a b c
  proof (rule ccontr)
    assume "\<not> lc a c < 0"
    with tr [OF that(1,2)] have "lc a c = 0" by simp
    then have ca: "lc c a \<le> 0" using zero [of a c] by simp
    from that(3) show False
    proof
      assume "lc a b < 0"
      moreover from tr [OF that(2) ca] have "lc b a \<le> 0" .
      ultimately show False using sym [of a b] by simp
    next
      assume "lc b c < 0"
      moreover from tr [OF ca that(1)] have "lc c b \<le> 0" .
      ultimately show False using sym [of b c] by simp
    qed
  qed
  have eq_tr: "lc a c = 0" if "lc a b = 0" "lc b c = 0" for a b c
  proof -
    from that have "lc a c \<le> 0" using tr [of a b c] by simp
    moreover from that zero [of a b] zero [of b c] have "lc c b = 0" "lc b a = 0" by simp_all
    then have "lc c a \<le> 0" using tr [of c b a] by simp
    then have "\<not> lc a c < 0" using sym [of a c] by simp
    ultimately show ?thesis by simp
  qed
  show ?thesis
    unfolding consistent_compare_def
  proof (intro conjI allI impI)
    fix x y
    show "(festival_compare lc x y < 0) = (0 < festival_compare lc y x)"
      using sym [of "region x" "region y"] sym [of "name x" "name y"]
        zero [of "region x" "region y"]
      by (auto simp: festival_compare_def)
  next
    fix x y z
    assume "festival_compare lc x y \<le> 0" and "festival_compare lc y z \<le> 0"
    then have xy: "dropdown_order lc x y" and yz: "dropdown_order lc y z"
      by (simp_all add: festival_compare_le)
    have "dropdown_order lc x z"
    proof (cases "lc (region x) (region y) = 0 \<and> lc (region y) (region z) = 0")
      case True
      with eq_tr have "lc (region x) (region z) = 0" by blast
      moreover from True xy yz have "lc (name x) (name z) \<le> 0"
        unfolding dropdown_order_def using tr by auto
      ultimately show ?thesis by (simp add: dropdown_order_def)
    next
      case False
      with xy yz have "lc (region x) (region y) \<le> 0" "lc (region y) (region z) \<le> 0"
        "lc (region x) (region y) < 0 \<or> lc (region y) (region z) < 0"
        unfolding dropdown_order_def by auto
      from lt_tr [OF this] show ?thesis by (simp add: dropdown_order_def)
    qed
    then show "festival_compare lc x z \<le> 0"
      by (simp add: festival_compare_le)
  qed
qed

lemma code_unit_less_asym: "code_unit_less a b \<Longrightarrow> \<not> code_unit_less b a"
proof (induction a arbitrary: b)
  case Nil
  then show ?case by (cases b) simp_all
next
  case (Cons x xs)
  then show ?case by (cases b) auto
qed

lemma code_unit_less_trans:
  "code_unit_less a b \<Longrightarrow> code_unit_less b c \<Longrightarrow> code_unit_less a c"
proof (induction a arbitrary: b c)
  case Nil
  then show ?case by (cases b; cases c) simp_all
next
  case (Cons x xs)
  then show ?case by (cases b; cases c) auto
qed

lemma code_unit_less_total:
  "\<not> code_unit_less a b \<Longrightarrow> \<not> code_unit_less b a \<Longrightarrow> a = b"
proof (induction a arbitrary: b)
  case Nil
  then show ?case by (cases b) simp_all
next
  case (Cons x xs)
  show ?case
  proof (cases b)
    case Nil
    with Cons.prems show ?thesis by simp
  next
    case (Cons y ys)
    with Cons.prems have "(of_char x :: nat) = of_char y"
      by (auto simp: not_less)
    then have "x = y" by simp
    with Cons Cons.prems Cons.IH [of ys] show ?thesis by auto
  qed
qed

lemma consistent_demo_lc: "consistent_compare demo_lc"
  unfolding consistent_compare_def demo_lc_def
proof (intro conjI allI impI)
  fix a b
  show "((if code_unit_less a b then - 1 else if code_unit_less b a then 1 else (0::int)) < 0)
        = (0 < (if code_unit_less b a then - 1 else if code_unit_less a b then 1 else (0::int)))"
    using code_unit_less_asym [of a b] by auto
next
  fix a b c
  assume "(if code_unit_less a b then - 1 else if code_unit_less b a then 1 else (0::int)) \<le> 0"
    and "(if code_unit_less b c then - 1 else if code_unit_less c b then 1 else (0::int)) \<le> 0"
  then have ab: "\<not> code_unit_less b a" and bc: "\<not> code_unit_less c b"
    using code_unit_less_asym [of a b] code_unit_less_asym [of b c]
    by (auto split: if_splits)
  have "\<not> code_unit_less c a"
  proof
    assume ca: "code_unit_less c a"
    show False
    proof (cases "code_unit_less a b")
      case True
      from code_unit_less_trans [OF ca True] bc show False by simp
    next
      case False
      from code_unit_less_total [OF False ab] ca bc show False by simp
    qed
  qed
  then show "(if code_unit_less a c then - 1 else if code_unit_less c a then 1 else (0::int)) \<le> 0"
    by simp
qed

text \<open>
  Claim C6. The home page renders the catalog entries together with one empty-name
  entry for each region of the regions table that some festival is in, sorted by
  region code first and festival name second. Where the collation is a consistent
  comparator that puts the empty string before the catalog's non-empty names, an
  empty-name entry stands before every entry of the same region with a non-empty
  name.
\<close>

theorem dropdown_sorted_separator_first:
  assumes "consistent_compare lc"
    and "\<forall>f \<in> set (supportedFestivals C). name f \<noteq> [] \<longrightarrow> lc [] (name f) < 0"
  shows "home lc C isProd =
           (Render ''home''
              \<lparr> hp_prod = isProd, hp_supportedFestivals = sortedFestivals lc C \<rparr>, [])
       \<and> mset (sortedFestivals lc C) =
           mset (supportedFestivals C)
           + mset (map separator
                     (filter (\<lambda>r. \<exists>f \<in> set (supportedFestivals C). region f = region_name r)
                        (regions C)))
       \<and> sorted_wrt (dropdown_order lc) (sortedFestivals lc C)
       \<and> (\<forall>i j. i < length (sortedFestivals lc C) \<and> j < length (sortedFestivals lc C)
                \<and> name (sortedFestivals lc C ! i) = []
                \<and> name (sortedFestivals lc C ! j) \<noteq> []
                \<and> region (sortedFestivals lc C ! i) = region (sortedFestivals lc C ! j)
              \<longrightarrow> i < j)"
proof -
  let ?out = "sortedFestivals lc C"
  let ?seps = "map separator
                 (filter (\<lambda>r. \<exists>f \<in> set (supportedFestivals C). region f = region_name r)
                    (regions C))"
  have codes: "(region_name r \<in> set (set_spread [] (map region (supportedFestivals C))))
                 = (\<exists>f \<in> set (supportedFestivals C). region f = region_name r)" for r
    by (force simp: set_spread_set)
  have ms: "mset ?out = mset (supportedFestivals C) + mset ?seps"
    by (simp add: sortedFestivals_def Let_def mset_array_sort codes)
  have so: "sorted_wrt (dropdown_order lc) ?out"
    using sorted_array_sort [OF consistent_festival_compare [OF assms(1)]]
    by (simp add: sortedFestivals_def Let_def festival_compare_le)
  have first: "i < j"
    if "i < length ?out" "j < length ?out" "name (?out ! i) = []" "name (?out ! j) \<noteq> []"
      "region (?out ! i) = region (?out ! j)" for i j
  proof (rule ccontr)
    assume "\<not> i < j"
    moreover from that(3,4) have "i \<noteq> j" by auto
    ultimately have "j < i" by simp
    with so that(1) have "dropdown_order lc (?out ! j) (?out ! i)"
      by (simp add: sorted_wrt_iff_nth_less)
    then have le: "lc (name (?out ! j)) [] \<le> 0"
      using that(3,5) consistent_refl [OF assms(1), of "region (?out ! j)"]
      by (simp add: dropdown_order_def)
    from that(2) have "?out ! j \<in># mset ?out" by simp
    then have "?out ! j \<in> set (supportedFestivals C) \<or> ?out ! j \<in> set ?seps"
      unfolding ms by auto
    with that(4) have "?out ! j \<in> set (supportedFestivals C)"
      by (auto simp: separator_def)
    with assms(2) that(4) have "lc [] (name (?out ! j)) < 0" by blast
    then have "lc (name (?out ! j)) [] > 0"
      using assms(1) unfolding consistent_compare_def by blast
    with le show False by simp
  qed
  from ms so first show ?thesis
    by (simp add: home_def)
qed

theorem dropdown_sorted_separator_first_witness:
  "sorted_wrt (dropdown_order demo_lc) (sortedFestivals demo_lc demo_constants)
   \<and> map (\<lambda>f. (region f, name f)) (sortedFestivals demo_lc demo_constants) =
       [(''eu'', []), (''eu'', ''Glastonbury''), (''us'', []), (''us'', ''Coachella'')]
   \<and> mset (sortedFestivals demo_lc demo_constants) =
       mset [coachella, glastonbury]
       + mset [separator \<lparr> region_name = ''eu'', region_display_name = ''Europe'' \<rparr>,
               separator \<lparr> region_name = ''us'', region_display_name = ''United States'' \<rparr>]"
proof -
  have e: "\<forall>f \<in> set (supportedFestivals demo_constants).
             name f \<noteq> [] \<longrightarrow> demo_lc [] (name f) < 0"
    by (simp add: demo_defs demo_lc_def)
  have v: "map (\<lambda>f. (region f, name f)) (sortedFestivals demo_lc demo_constants) =
       [(''eu'', []), (''eu'', ''Glastonbury''), (''us'', []), (''us'', ''Coachella'')]"
    by (simp add: sortedFestivals_def array_sort_def festival_compare_def demo_lc_def
        separator_def demo_defs)
  have c: "supportedFestivals demo_constants = [coachella, glastonbury]"
    by (simp add: demo_constants_def)
  have r: "map separator
             (filter (\<lambda>r. \<exists>f \<in> set (supportedFestivals demo_constants).
                           region f = region_name r)
                (regions demo_constants))
           = [separator \<lparr> region_name = ''eu'', region_display_name = ''Europe'' \<rparr>,
              separator \<lparr> region_name = ''us'', region_display_name = ''United States'' \<rparr>]"
    by (simp add: demo_defs)
  note t = dropdown_sorted_separator_first [OF consistent_demo_lc e, of True, unfolded r, unfolded c]
  from t v show ?thesis
    apply (elim conjE)
    apply (intro conjI; assumption)
    done
qed

end
